theory Spec2Isabelle
  imports Main "HOL-Library.Char_ord" "HOL-Library.List_Lexorder" "HOL-Library.Product_Lexorder"
    "HOL-Library.AList"
begin

section \<open>Common data model\<close>

text \<open>
  The application (\<^verbatim>\<open>src/app.py\<close>) moves data between a spreadsheet grid, pandas
  data frames and DuckDB tables. A data frame or SQL table is modelled as its list of
  column names and its list of rows, a row being the list of its cells in column order.
  A cell of a DuckDB table, and of the frames made from one, is text or missing (SQL
  \<^verbatim>\<open>NULL\<close>, pandas \<^verbatim>\<open>NaN\<close>/\<^verbatim>\<open>None\<close>): every column of the store is text. A cell of
  a frame read from a spreadsheet with headers (\<open>pcell\<close>) may also be a number:
  \<^verbatim>\<open>pd.read_excel\<close> without \<^verbatim>\<open>dtype\<close> returns a digit-only cell as a whole number, and
  a number is never equal to a text.
  Exceptions of the Python code are values of type \<open>py_error\<close> (\<open>SqlError\<close> for an
  error of the database, \<open>OSError\<close> for a failed download or file access,
  \<open>PandasError\<close> for an exception raised inside a pandas operation).
\<close>

datatype py_error = IndexError | KeyError | ValueError | SqlError | OSError | PandasError

type_synonym cell = "string option"
type_synonym row = "cell list"

datatype pcell = Missing | Text string | Number int

record 'c frame =
  columns :: "string list"
  rows :: "'c list list"

type_synonym table = "cell frame"

text \<open>A table is well formed when every row has one cell per column.\<close>

definition wf_table :: "table \<Rightarrow> bool" where
  "wf_table t = list_all (\<lambda>r. length r = length (columns t)) (rows t)"

text \<open>Position of the first column with a given name.\<close>

fun index_of :: "string list \<Rightarrow> string \<Rightarrow> nat option" where
  "index_of [] c = None"
| "index_of (x # xs) c = (if x = c then Some 0 else map_option Suc (index_of xs c))"

section \<open>Cell Mapper\<close>

text \<open>
  \<^verbatim>\<open>COLUMN_ORDER\<close> (app.py, lines 34-47), written out as in the source.
\<close>

definition COLUMN_ORDER :: "string list" where
  "COLUMN_ORDER =
    [''Item'', ''Category'', ''About'', ''Bullet Copy'', ''Heading'', ''Spanish Bullet Copy'',
     ''Subheading'', ''Enhanced Product Name'', ''Bullet Copy 1'', ''Bullet Copy 2'',
     ''Bullet Copy 3'', ''Bullet Copy 4'', ''Bullet Copy 5'', ''Bullet Copy 6'',
     ''Bullet Copy 7'', ''Bullet Copy 8'', ''Bullet Copy 9'', ''Bullet Copy 10'',
     ''Feature/Benefit 1'', ''Feature/Benefit 2'', ''FeatureBenefit 3'', ''Feature/Benefit 4'',
     ''FeatureBenefit 5'', ''Feature/Benefit 6'', ''Feature/Benefit 7'', ''Feature/Benefit 8'',
     ''Feature/Benefit 9'', ''Feature/Benefit 10'', ''Keywords'', ''Long Description'',
     ''Product ID'', ''Product Title'', ''SEO Enhanced Bullets 1'', ''SEO Enhanced Bullets 2'',
     ''SEO Enhanced Bullets 3'', ''SEO Enhanced Bullets 4'', ''SEO Enhanced Bullets 5'',
     ''SEO Enhanced Bullets 6'', ''SEO Enhanced Bullets 7'', ''SEO Enhanced Bullets 8'',
     ''SEO Enhanced Bullets 9'', ''SEO Enhanced Bullets 10'', ''Short Description'',
     ''USP'', ''Brand'']"

definition SENTINEL :: string where
  "SENTINEL = ''not in pig''"

text \<open>Decimal rendering of a natural number, as an f-string renders \<^verbatim>\<open>{i}\<close>.\<close>

definition digit_char :: "nat \<Rightarrow> char" where
  "digit_char d = char_of (48 + d)"

fun str_nat :: "nat \<Rightarrow> string" where
  "str_nat n = (if n < 10 then [digit_char n] else str_nat (n div 10) @ [digit_char (n mod 10)])"

declare str_nat.simps [simp del]

text \<open>
  A Python dict keeps insertion order; \<^verbatim>\<open>{**a, **b}\<close> inserts the items of \<open>b\<close> into
  \<open>a\<close>, a key already present keeping its place and taking the new value. That is
  \<open>AList.update\<close>, folded over \<open>b\<close>.
\<close>

definition dict_merge :: "('k \<times> 'v) list \<Rightarrow> ('k \<times> 'v) list \<Rightarrow> ('k \<times> 'v) list" where
  "dict_merge a b = fold (\<lambda>(k, v). AList.update k v) b a"

text \<open>The mapping tables (app.py, lines 49-83): field name, then (cell reference, default).\<close>

definition FIELD_MAPPINGS :: "(string \<times> string \<times> string) list" where
  "FIELD_MAPPINGS =
    [(''Item'', ''B3'', ''not in pig''),
     (''Product ID'', ''B3'', ''not in pig''),
     (''Brand'', ''B2'', ''not in pig''),
     (''Product Title'', ''B4'', ''not in pig''),
     (''Enhanced Product Name'', ''B5'', ''not in pig''),
     (''USP'', ''B6'', ''not in pig''),
     (''Short Description'', ''B8'', ''not in pig''),
     (''Long Description'', ''B9'', ''not in pig''),
     (''Keywords'', ''B10'', ''not in pig'')]"

definition BULLET_MAPPINGS :: "(string \<times> string \<times> string) list" where
  "BULLET_MAPPINGS =
    map (\<lambda>i. (''Bullet Copy '' @ str_nat i, ''A'' @ str_nat (10 + i), ''not in pig'')) [1..<11]"

definition FEATURE_BENEFIT_MAPPINGS :: "(string \<times> string \<times> string) list" where
  "FEATURE_BENEFIT_MAPPINGS =
    dict_merge
      (dict_merge
        (map (\<lambda>i. (''Feature/Benefit '' @ str_nat i, ''B'' @ str_nat (10 + i), ''not in pig''))
           [1..<3])
        [(''FeatureBenefit 3'', ''B13'', ''not in pig''),
         (''Feature/Benefit 4'', ''B14'', ''not in pig''),
         (''FeatureBenefit 5'', ''B15'', ''not in pig'')])
      (map (\<lambda>i. (''Feature/Benefit '' @ str_nat i, ''B'' @ str_nat (10 + i), ''not in pig''))
         [6..<11])"

definition SEO_BULLET_MAPPINGS :: "(string \<times> string \<times> string) list" where
  "SEO_BULLET_MAPPINGS =
    map (\<lambda>i. (''SEO Enhanced Bullets '' @ str_nat i, ''C'' @ str_nat (10 + i), ''not in pig''))
      [1..<11]"

definition ALL_MAPPINGS :: "(string \<times> string \<times> string) list" where
  "ALL_MAPPINGS =
    dict_merge (dict_merge (dict_merge FIELD_MAPPINGS BULLET_MAPPINGS) FEATURE_BENEFIT_MAPPINGS)
      SEO_BULLET_MAPPINGS"

subsection \<open>The spreadsheet grid\<close>

text \<open>
  \<^verbatim>\<open>pd.read_excel(..., header=None)\<close> gives a rectangular frame whose column labels
  are the integers \<open>0, 1, 2, \<dots>\<close>. Of a cell value the code uses only \<^verbatim>\<open>pd.isna(value)\<close>
  and \<^verbatim>\<open>str(value)\<close>, so a value is modelled as missing (\<open>NaN\<close>) or by its \<^verbatim>\<open>str\<close>
  rendering.
\<close>

datatype xl_value = NaN | Val string

type_synonym grid = "xl_value list list"

definition isna :: "xl_value \<Rightarrow> bool" where
  "isna v = (v = NaN)"

fun py_str :: "xl_value \<Rightarrow> string" where
  "py_str NaN = ''nan''"
| "py_str (Val s) = s"

text \<open>
  \<^verbatim>\<open>df.iloc[i]\<close> is positional: a negative index counts from the end, and an index
  outside the frame raises \<^verbatim>\<open>IndexError\<close>.
\<close>

definition iloc :: "'a list \<Rightarrow> int \<Rightarrow> py_error + 'a" where
  "iloc xs i =
     (if 0 \<le> i \<and> i < int (length xs) then Inr (xs ! nat i)
      else if i < 0 \<and> - int (length xs) \<le> i then Inr (xs ! nat (int (length xs) + i))
      else Inl IndexError)"

text \<open>
  \<^verbatim>\<open>df.iloc[row]\<close> is a Series indexed by the frame's integer column labels, and
  \<^verbatim>\<open>series[k]\<close> with an integer \<open>k\<close> on an integer index is a lookup by label: a label that
  is not one of \<open>0, \<dots>, n - 1\<close> raises \<^verbatim>\<open>KeyError\<close> (there is no counting from the end,
  and no \<^verbatim>\<open>IndexError\<close>).
\<close>

definition series_getitem :: "'a list \<Rightarrow> int \<Rightarrow> py_error + 'a" where
  "series_getitem xs k =
     (if 0 \<le> k \<and> k < int (length xs) then Inr (xs ! nat k) else Inl KeyError)"

text \<open>
  \<^verbatim>\<open>str.strip()\<close>. A \<open>char\<close> stands for a code point below 256; the white space of
  Python among these is \<open>U+0009\<close> to \<open>U+000D\<close>, \<open>U+001C\<close> to \<open>U+0020\<close>, \<open>U+0085\<close> and
  \<open>U+00A0\<close>.
\<close>

definition is_space :: "char \<Rightarrow> bool" where
  "is_space c = (c \<in> set [CHR 0x09, CHR 0x0A, CHR 0x0B, CHR 0x0C, CHR 0x0D,
                            CHR 0x1C, CHR 0x1D, CHR 0x1E, CHR 0x1F, CHR 0x20,
                            CHR 0x85, CHR 0xA0])"

definition strip :: "string \<Rightarrow> string" where
  "strip s = rev (dropWhile is_space (rev (dropWhile is_space s)))"

text \<open>
  \<^verbatim>\<open>int(s)\<close> on ASCII text: surrounding white space, an optional sign, then decimal
  digits in which single underscores may separate digits; anything else raises
  \<^verbatim>\<open>ValueError\<close> (here \<open>None\<close>).
\<close>

definition is_digit :: "char \<Rightarrow> bool" where
  "is_digit c = (CHR ''0'' \<le> c \<and> c \<le> CHR ''9'')"

fun digits_value :: "nat \<Rightarrow> string \<Rightarrow> nat option" where
  "digits_value acc [] = Some acc"
| "digits_value acc (c # cs) =
     (if is_digit c then digits_value (10 * acc + (of_char c - 48)) cs
      else if c = CHR ''_'' \<and> cs \<noteq> [] \<and> is_digit (hd cs) then digits_value acc cs
      else None)"

definition unsigned_int :: "string \<Rightarrow> int option" where
  "unsigned_int s =
     (case s of [] \<Rightarrow> None
      | c # cs \<Rightarrow> if is_digit c then map_option int (digits_value 0 s) else None)"

definition py_int :: "string \<Rightarrow> int option" where
  "py_int s =
     (case strip s of [] \<Rightarrow> None
      | c # cs \<Rightarrow>
          if c = CHR ''-'' then map_option uminus (unsigned_int cs)
          else if c = CHR ''+'' then unsigned_int cs
          else unsigned_int (c # cs))"

subsection \<open>\<^verbatim>\<open>extract_cell_value\<close> (app.py, lines 425-445)\<close>

text \<open>
  The body of the \<^verbatim>\<open>try\<close> block, every exception it can raise being a result:
  \<^verbatim>\<open>int(cell_reference[1:])\<close> raises \<^verbatim>\<open>ValueError\<close>, \<^verbatim>\<open>df.iloc[row]\<close> raises
  \<^verbatim>\<open>IndexError\<close>, the label lookup in the row raises \<^verbatim>\<open>KeyError\<close>.
\<close>

definition extract_cell_body :: "grid \<Rightarrow> string \<Rightarrow> py_error + string" where
  "extract_cell_body df cell_reference =
     (let col = hd cell_reference in
      case py_int (tl cell_reference) of
        None \<Rightarrow> Inl ValueError
      | Some n \<Rightarrow>
          (let row = n - 1 in
           case iloc df row of
             Inl e \<Rightarrow> Inl e
           | Inr series \<Rightarrow>
               (case series_getitem series (int (of_char col) - int (of_char (CHR ''A''))) of
                  Inl e \<Rightarrow> Inl e
                | Inr v \<Rightarrow> if isna v then Inr ''not in pig'' else Inr (strip (py_str v)))))"

text \<open>
  The function: an empty reference gives the sentinel, and the handler
  \<^verbatim>\<open>except (IndexError, ValueError)\<close> turns these two exceptions into the sentinel.
  Any other exception leaves the function.
\<close>

definition extract_cell_value :: "grid \<Rightarrow> string \<Rightarrow> py_error + string" where
  "extract_cell_value df cell_reference =
     (if cell_reference = [] then Inr ''not in pig''
      else
        (case extract_cell_body df cell_reference of
           Inl IndexError \<Rightarrow> Inr ''not in pig''
         | Inl ValueError \<Rightarrow> Inr ''not in pig''
         | Inl e \<Rightarrow> Inl e
         | Inr v \<Rightarrow> Inr v))"

subsection \<open>\<^verbatim>\<open>process_pig_file\<close> (app.py, lines 658-698)\<close>

record validation_info =
  processed_fields :: nat
  missing_fields :: nat
  total_fields :: nat

text \<open>
  The loop over \<^verbatim>\<open>ALL_MAPPINGS.items()\<close>: the state is the output dict and the list of
  processed fields (a set in the source; a field is added once, the keys of a dict being
  distinct). An exception of \<^verbatim>\<open>extract_cell_value\<close> ends the loop.
\<close>

fun map_fields ::
  "grid \<Rightarrow> (string \<times> string \<times> string) list \<Rightarrow> (string \<times> string) list \<times> string list \<Rightarrow>
   py_error + ((string \<times> string) list \<times> string list)" where
  "map_fields df [] st = Inr st"
| "map_fields df ((field, cell_ref, dflt) # ms) (output_data, processed) =
     (if cell_ref \<noteq> [] then
        (case extract_cell_value df cell_ref of
           Inl e \<Rightarrow> Inl e
         | Inr v \<Rightarrow> map_fields df ms (AList.update field v output_data, List.insert field processed))
      else map_fields df ms (output_data, processed))"

text \<open>
  The function returns \<^verbatim>\<open>(True, validation_info)\<close> after storing the one-row table
  \<^verbatim>\<open>temp_pig_mapped\<close>, or \<^verbatim>\<open>(False, None)\<close> from its \<^verbatim>\<open>except Exception\<close> handler:
  \<open>Some\<close> of the mapped record and the counts, or \<open>None\<close>.
\<close>

definition process_pig_file :: "grid \<Rightarrow> ((string \<times> string) list \<times> validation_info) option" where
  "process_pig_file df =
     (let output_data = map (\<lambda>field. (field, ''not in pig'')) COLUMN_ORDER in
      case map_fields df ALL_MAPPINGS (output_data, []) of
        Inl e \<Rightarrow> None
      | Inr (output_data', processed) \<Rightarrow>
          (let missing = filter (\<lambda>k. k \<notin> set processed) (map fst ALL_MAPPINGS) in
           Some (output_data',
                 \<lparr>processed_fields = length processed,
                  missing_fields = length missing,
                  total_fields = length ALL_MAPPINGS\<rparr>)))"


section \<open>Dataset Store\<close>

text \<open>
  The store is the DuckDB table \<^verbatim>\<open>pig_data\<close>. Its schema is the column list that the
  upsert selects and persists (app.py, lines 868-879 and 912-933): \<^verbatim>\<open>COLUMN_ORDER\<close>
  with \<^verbatim>\<open>Status\<close> as fourth column.
\<close>

definition STORE_COLUMNS :: "string list" where
  "STORE_COLUMNS =
    [''Item'', ''Category'', ''About'', ''Status'', ''Bullet Copy'', ''Heading'',
     ''Spanish Bullet Copy'', ''Subheading'', ''Enhanced Product Name'', ''Bullet Copy 1'',
     ''Bullet Copy 2'', ''Bullet Copy 3'',
     ''Bullet Copy 4'', ''Bullet Copy 5'', ''Bullet Copy 6'', ''Bullet Copy 7'', ''Bullet Copy 8'',
     ''Bullet Copy 9'', ''Bullet Copy 10'', ''Feature/Benefit 1'', ''Feature/Benefit 2'',
     ''FeatureBenefit 3'', ''Feature/Benefit 4'', ''FeatureBenefit 5'', ''Feature/Benefit 6'',
     ''Feature/Benefit 7'', ''Feature/Benefit 8'', ''Feature/Benefit 9'', ''Feature/Benefit 10'',
     ''Keywords'', ''Long Description'', ''Product ID'', ''Product Title'', ''SEO Enhanced Bullets 1'',
     ''SEO Enhanced Bullets 2'', ''SEO Enhanced Bullets 3'', ''SEO Enhanced Bullets 4'',
     ''SEO Enhanced Bullets 5'', ''SEO Enhanced Bullets 6'', ''SEO Enhanced Bullets 7'',
     ''SEO Enhanced Bullets 8'', ''SEO Enhanced Bullets 9'', ''SEO Enhanced Bullets 10'',
     ''Short Description'', ''USP'', ''Brand'']"

subsection \<open>SQL conditions\<close>

text \<open>
  A comparison with \<^verbatim>\<open>NULL\<close> is unknown (\<open>None\<close>), \<^verbatim>\<open>AND\<close> is the three-valued
  conjunction, and \<^verbatim>\<open>WHERE\<close> and \<^verbatim>\<open>DELETE\<close> act on the rows whose condition is true.
\<close>

definition sql_eq :: "cell \<Rightarrow> cell \<Rightarrow> bool option" where
  "sql_eq a b = (case (a, b) of (Some x, Some y) \<Rightarrow> Some (x = y) | _ \<Rightarrow> None)"

definition sql_neq :: "cell \<Rightarrow> cell \<Rightarrow> bool option" where
  "sql_neq a b = (case (a, b) of (Some x, Some y) \<Rightarrow> Some (x \<noteq> y) | _ \<Rightarrow> None)"

definition sql_not_in :: "cell \<Rightarrow> string list \<Rightarrow> bool option" where
  "sql_not_in a vs = (case a of Some x \<Rightarrow> Some (x \<notin> set vs) | None \<Rightarrow> None)"

definition sql_and :: "bool option \<Rightarrow> bool option \<Rightarrow> bool option" where
  "sql_and p q =
     (if p = Some False \<or> q = Some False then Some False
      else if p = Some True \<and> q = Some True then Some True
      else None)"

definition is_true :: "bool option \<Rightarrow> bool" where
  "is_true p = (p = Some True)"

text \<open>
  \<^verbatim>\<open>ORDER BY Item\<close>: ascending in the byte order of the text, missing values last. The
  order of rows with equal keys, and the order of a result without \<^verbatim>\<open>ORDER BY\<close>, are
  not fixed by SQL; the model keeps the order of the list, and the theorems below speak
  of the set of rows wherever SQL leaves the order open.
\<close>

definition item_key :: "cell \<Rightarrow> bool \<times> string" where
  "item_key x = (case x of None \<Rightarrow> (True, []) | Some s \<Rightarrow> (False, s))"

definition NO_ITEM :: "string list" where
  "NO_ITEM = [''no item'', ''no_item'']"

subsection \<open>Data frame operations\<close>

text \<open>\<^verbatim>\<open>df[c] = v\<close> with a scalar: overwrite the column named \<open>c\<close>, or append it.\<close>

definition assign_column :: "table \<Rightarrow> string \<Rightarrow> cell \<Rightarrow> table" where
  "assign_column df c v =
     (if c \<in> set (columns df)
      then df\<lparr>rows := map (\<lambda>r. map2 (\<lambda>n x. if n = c then v else x) (columns df) r) (rows df)\<rparr>
      else \<lparr>columns = columns df @ [c], rows = map (\<lambda>r. r @ [v]) (rows df)\<rparr>)"

text \<open>
  \<^verbatim>\<open>df[[c1, c2, ...]]\<close>: the named columns in the given order, \<^verbatim>\<open>KeyError\<close> when a
  name is missing. (The frames here come from SQL results and from \<^verbatim>\<open>read_excel\<close>,
  whose column names are unique.)
\<close>

definition select_columns :: "'c frame \<Rightarrow> string list \<Rightarrow> py_error + 'c frame" where
  "select_columns df cs =
     (if set cs \<subseteq> set (columns df)
      then Inr \<lparr>columns = cs,
                rows = map (\<lambda>r. map (\<lambda>c. r ! the (index_of (columns df) c)) cs) (rows df)\<rparr>
      else Inl KeyError)"

text \<open>\<^verbatim>\<open>df.replace([old], [new])\<close>: a cell equal to \<open>old\<close> becomes \<open>new\<close>.\<close>

definition replace_value :: "table \<Rightarrow> string \<Rightarrow> string \<Rightarrow> table" where
  "replace_value df old new =
     df\<lparr>rows := map (map (\<lambda>x. if x = Some old then Some new else x)) (rows df)\<rparr>"

subsection \<open>The upsert (app.py, lines 843-906)\<close>

text \<open>
  The handler of the button "Update in app Salsify view" in \<^verbatim>\<open>show_upload_interface\<close>.
  Its inputs are the store \<^verbatim>\<open>pig_data\<close>, the frame \<^verbatim>\<open>edited_df\<close> returned by the data
  editor (the user may edit cells and add or delete rows, not change columns), and the
  values of the two select boxes. The steps, in the order of the source:
  \<^item> \<^verbatim>\<open>item_number = edited_df['Item'].iloc[0]\<close>;
  \<^item> count the rows of \<^verbatim>\<open>pig_data\<close> with that \<^verbatim>\<open>Item\<close> and delete them if there are any;
  \<^item> set \<^verbatim>\<open>Category\<close> and \<^verbatim>\<open>Status\<close>, select the store's columns, replace the sentinel;
  \<^item> \<^verbatim>\<open>pig_data2\<close>: the rows of \<^verbatim>\<open>pig_data\<close> \<^verbatim>\<open>WHERE Item != ? and "Item" not in ('no item', 'no_item')\<close>,
    \<^verbatim>\<open>UNION ALL\<close> (by position) the rows of \<^verbatim>\<open>edited_df\<close>
    \<^verbatim>\<open>WHERE Item = ? and "Item" not in ('no item', 'no_item')\<close>, \<^verbatim>\<open>ORDER BY Item\<close>;
  \<^item> \<^verbatim>\<open>pig_data\<close> becomes \<^verbatim>\<open>SELECT DISTINCT * FROM pig_data2\<close>.
  An exception anywhere leaves the handler through its \<^verbatim>\<open>except\<close> clause (\<open>Inl\<close>).
\<close>

definition delete_item :: "nat \<Rightarrow> cell \<Rightarrow> table \<Rightarrow> table" where
  "delete_item i item_number pig_data =
     pig_data\<lparr>rows := filter (\<lambda>r. \<not> is_true (sql_eq (r ! i) item_number)) (rows pig_data)\<rparr>"

definition upsert :: "table \<Rightarrow> table \<Rightarrow> cell \<Rightarrow> cell \<Rightarrow> py_error + table" where
  "upsert pig_data edited_df category status =
     (case index_of (columns edited_df) ''Item'' of
        None \<Rightarrow> Inl KeyError
      | Some j \<Rightarrow>
     (case rows edited_df of
        [] \<Rightarrow> Inl IndexError
      | first_row # _ \<Rightarrow>
     (let item_number = first_row ! j in
      case index_of (columns pig_data) ''Item'' of
        None \<Rightarrow> Inl SqlError
      | Some i \<Rightarrow>
     (let existing_item =
            length (filter (\<lambda>r. is_true (sql_eq (r ! i) item_number)) (rows pig_data));
          pig_data1 = (if existing_item > 0 then delete_item i item_number pig_data else pig_data);
          edited1 = assign_column edited_df ''Category'' category;
          edited2 = assign_column edited1 ''Status'' status
      in
      case select_columns edited2 STORE_COLUMNS of
        Inl e \<Rightarrow> Inl e
      | Inr edited3 \<Rightarrow>
     (let edited4 = replace_value edited3 ''not in pig'' [] in
      case index_of (columns edited4) ''Item'' of
        None \<Rightarrow> Inl SqlError
      | Some k \<Rightarrow>
          if length (columns pig_data1) \<noteq> length (columns edited4) then Inl SqlError
          else
            (let kept = filter (\<lambda>r. is_true (sql_and (sql_neq (r ! i) item_number)
                                                 (sql_not_in (r ! i) NO_ITEM)))
                          (rows pig_data1);
                 inserted = filter (\<lambda>r. is_true (sql_and (sql_eq (r ! k) item_number)
                                                     (sql_not_in (r ! k) NO_ITEM)))
                              (rows edited4);
                 pig_data2 = \<lparr>columns = columns pig_data1,
                              rows = sort_key (\<lambda>r. item_key (r ! i)) (kept @ inserted)\<rparr>
             in Inr (pig_data2\<lparr>rows := remdups (rows pig_data2)\<rparr>)))))))"

section \<open>Merge/Publish Pipeline (\<^verbatim>\<open>upload_to_salsify\<close>, app.py, lines 1148-1241)\<close>

definition drop_nth :: "nat \<Rightarrow> 'a list \<Rightarrow> 'a list" where
  "drop_nth k xs = take k xs @ drop (Suc k) xs"

text \<open>
  Step 1, \<^verbatim>\<open>SELECT DISTINCT * EXCLUDE(Status) FROM pig_data ORDER BY Item\<close> (lines 1159-1164).
\<close>

definition session_data :: "table \<Rightarrow> py_error + table" where
  "session_data pig_data =
     (case index_of (columns pig_data) ''Status'' of
        None \<Rightarrow> Inl SqlError
      | Some s \<Rightarrow>
          (let cols = drop_nth s (columns pig_data) in
           case index_of cols ''Item'' of
             None \<Rightarrow> Inl SqlError
           | Some i \<Rightarrow>
               Inr \<lparr>columns = cols,
                    rows = sort_key (\<lambda>r. item_key (r ! i))
                             (remdups (map (drop_nth s) (rows pig_data)))\<rparr>))"

text \<open>
  \<^verbatim>\<open>con.execute(...).df()\<close> turns the result into a pandas frame: text stays text, \<^verbatim>\<open>NULL\<close>
  becomes a missing value.
\<close>

definition to_pcell :: "cell \<Rightarrow> pcell" where
  "to_pcell x = (case x of None \<Rightarrow> Missing | Some s \<Rightarrow> Text s)"

definition to_pandas :: "table \<Rightarrow> pcell frame" where
  "to_pandas t = \<lparr>columns = columns t, rows = map (map to_pcell) (rows t)\<rparr>"

text \<open>\<^verbatim>\<open>df.fillna(v)\<close>: a missing cell becomes the text \<open>v\<close>.\<close>

definition fillna :: "pcell frame \<Rightarrow> string \<Rightarrow> pcell frame" where
  "fillna df v =
     df\<lparr>rows := map (map (\<lambda>x. case x of Missing \<Rightarrow> Text v | Text s \<Rightarrow> Text s
                                  | Number n \<Rightarrow> Number n)) (rows df)\<rparr>"

text \<open>
  Step 2 (lines 1187-1218), from the frame \<^verbatim>\<open>vendor_df\<close> that \<^verbatim>\<open>pd.read_excel\<close> returned.
  \<^verbatim>\<open>vendor_df.columns[0]\<close> raises \<^verbatim>\<open>IndexError\<close> on a frame without columns;
  \<^verbatim>\<open>columns[at_idx:bo_idx+1]\<close> is a slice.
\<close>

definition at_idx :: nat where "at_idx = 45"
definition bo_idx :: nat where "bo_idx = 66"

datatype warning = MissingColumns | VendorUnavailable

definition vendor_columns :: "'c frame \<Rightarrow> py_error + 'c frame option" where
  "vendor_columns vendor_df =
     (case columns vendor_df of
        [] \<Rightarrow> Inl IndexError
      | item_col # _ \<Rightarrow>
          if length (columns vendor_df) > bo_idx then
            (let at_bo_cols = drop at_idx (take (bo_idx + 1) (columns vendor_df)) in
             case select_columns vendor_df ([item_col] @ at_bo_cols) of
               Inl e \<Rightarrow> Inl e
             | Inr vendor_data \<Rightarrow>
                 Inr (Some (vendor_data\<lparr>columns :=
                        map (\<lambda>c. if c = item_col then ''Item'' else c) (columns vendor_data)\<rparr>)))
          else Inr None)"

text \<open>
  The whole \<^verbatim>\<open>try\<close> block of step 2: \<open>fetched\<close> is the outcome of the download and of
  \<^verbatim>\<open>pd.read_excel\<close> (\<open>Inl\<close> when either raised). Every exception ends in the handler, which
  warns and sets \<^verbatim>\<open>vendor_data = None\<close>; too few columns warn as well.
\<close>

definition fetch_vendor_data :: "py_error + 'c frame \<Rightarrow> 'c frame option \<times> warning option" where
  "fetch_vendor_data fetched =
     (case fetched of
        Inl e \<Rightarrow> (None, Some VendorUnavailable)
      | Inr vendor_df \<Rightarrow>
          (case vendor_columns vendor_df of
             Inl e \<Rightarrow> (None, Some VendorUnavailable)
           | Inr None \<Rightarrow> (None, Some MissingColumns)
           | Inr (Some vendor_data) \<Rightarrow> (Some vendor_data, None)))"

text \<open>\<^verbatim>\<open>Series.unique()\<close>: the distinct values in order of first appearance.\<close>

definition py_unique :: "'a list \<Rightarrow> 'a list" where
  "py_unique xs = fold (\<lambda>x seen. if x \<in> set seen then seen else seen @ [x]) xs []"

text \<open>
  \<^verbatim>\<open>df['Item']\<close> as used in \<^verbatim>\<open>pd.concat([session_df['Item'], vendor_data['Item']]).unique()\<close>:
  the cells of the column, \<^verbatim>\<open>KeyError\<close> when no column has the name. When two columns
  have the name (the vendor sheet has an \<^verbatim>\<open>Item\<close> column in the range AT to BO beside its
  renamed first column), \<^verbatim>\<open>df['Item']\<close> is a frame of both and the expression raises.
\<close>

definition item_series :: "'c frame \<Rightarrow> py_error + 'c list" where
  "item_series df =
     (case index_of (columns df) ''Item'' of
        None \<Rightarrow> Inl KeyError
      | Some i \<Rightarrow>
          if 1 < count_list (columns df) ''Item'' then Inl PandasError
          else Inr (map (\<lambda>r. r ! i) (rows df)))"

text \<open>
  \<^verbatim>\<open>pd.merge(left, right, on=key, how='left')\<close>: for every row of \<open>left\<close>, in order, one
  result row per row of \<open>right\<close> with an equal key, or one row with missing cells when
  there is none. Keys are equal as Python values: a text equals the same text, a number
  the same number, missing keys match each other, and a text never equals a number. The
  columns are those of \<open>left\<close>, then those of \<open>right\<close> without the key; a name on both sides
  gets the suffixes \<^verbatim>\<open>_x\<close> and \<^verbatim>\<open>_y\<close>.
\<close>

definition merge_left :: "pcell frame \<Rightarrow> pcell frame \<Rightarrow> string \<Rightarrow> py_error + pcell frame" where
  "merge_left left right key =
     (case (index_of (columns left) key, index_of (columns right) key) of
        (Some i, Some j) \<Rightarrow>
          (let rcols = drop_nth j (columns right);
               lcols = drop_nth i (columns left)
           in Inr \<lparr>columns =
                     map (\<lambda>c. if c \<noteq> key \<and> c \<in> set rcols then c @ ''_x'' else c) (columns left) @
                     map (\<lambda>c. if c \<in> set lcols then c @ ''_y'' else c) rcols,
                   rows =
                     concat (map (\<lambda>l.
                       (let ms = filter (\<lambda>r. r ! j = l ! i) (rows right) in
                        if ms = [] then [l @ replicate (length rcols) Missing]
                        else map (\<lambda>r. l @ drop_nth j r) ms)) (rows left))\<rparr>)
      | _ \<Rightarrow> Inl KeyError)"

text \<open>
  The types \<^verbatim>\<open>pd.read_excel\<close> gives a column: a column of numbers and blank cells with
  at least one blank cell is a column of floats, a column with a text cell is a column of
  objects. \<^verbatim>\<open>pd.merge\<close> refuses to join a key column of objects that holds a text
  with a key column of floats (\<^verbatim>\<open>ValueError\<close>); it joins a key column of objects with
  one of objects or of whole numbers, comparing the values.
\<close>

fun is_text :: "pcell \<Rightarrow> bool" where
  "is_text (Text s) = True"
| "is_text _ = False"

definition float_column :: "pcell list \<Rightarrow> bool" where
  "float_column xs \<longleftrightarrow> Missing \<in> set xs \<and> filter is_text xs = []"

text \<open>
  Step 3 (lines 1220-1241). \<^verbatim>\<open>vendor_data.empty\<close> holds when the frame has no rows or
  no columns.
\<close>

definition merge_step :: "pcell frame \<Rightarrow> pcell frame option \<Rightarrow> py_error + pcell frame" where
  "merge_step session_df vendor_data =
     (case vendor_data of
        None \<Rightarrow> Inr (fillna session_df [])
      | Some vd \<Rightarrow>
          if rows vd = [] \<or> columns vd = [] then Inr (fillna session_df [])
          else
            (case item_series session_df of
               Inl e \<Rightarrow> Inl e
             | Inr session_items \<Rightarrow>
            (case item_series vd of
               Inl e \<Rightarrow> Inl e
             | Inr vendor_items \<Rightarrow>
                 (let all_items = py_unique (session_items @ vendor_items);
                      merged_df = \<lparr>columns = [''Item''], rows = map (\<lambda>x. [x]) all_items\<rparr>
                  in case merge_left merged_df session_df ''Item'' of
                       Inl e \<Rightarrow> Inl e
                     | Inr merged1 \<Rightarrow>
                         if float_column vendor_items \<and> filter is_text all_items \<noteq> []
                         then Inl ValueError
                         else
                           (case merge_left merged1 vd ''Item'' of
                              Inl e \<Rightarrow> Inl e
                            | Inr merged2 \<Rightarrow> Inr (fillna merged2 []))))))"

text \<open>
  Steps 1 to 3 together: the export frame and the warning shown, if any. \<open>fetched\<close> is the
  outcome of the download and of \<^verbatim>\<open>pd.read_excel\<close> on the vendor sheet.
\<close>

definition build_export ::
  "table \<Rightarrow> py_error + pcell frame \<Rightarrow> py_error + (pcell frame \<times> warning option)" where
  "build_export pig_data fetched =
     (case session_data pig_data of
        Inl e \<Rightarrow> Inl e
      | Inr sd \<Rightarrow>
          (let session_df = to_pandas sd in
           case fetch_vendor_data fetched of
             (vendor_data, w) \<Rightarrow>
               (case merge_step session_df vendor_data of
                  Inl e \<Rightarrow> Inl e
                | Inr merged_df \<Rightarrow> Inr (merged_df, w))))"

section \<open>Filter Engine (\<^verbatim>\<open>table_filters/var_002.py\<close>)\<close>

text \<open>
  The Streamlit session state holds, for filter slot \<open>i\<close>, the column chosen in the select
  box (key \<^verbatim>\<open>..._filter_col_i\<close>) and the values chosen in the multiselect (key
  \<^verbatim>\<open>..._filter_val_i\<close>), and the number of slots (\<^verbatim>\<open>..._active_filters\<close>). A widget
  with a key returns the value the session state holds for that key, the user's last
  choice, when that value is among the options the widget is given; otherwise (no value,
  or a value that is not among the options) the widget is reset to its default: the first
  option of the select box, the empty list for the multiselect. After the call the session
  state holds the value returned.
\<close>

record filter_state =
  filter_col :: "nat \<Rightarrow> string option"
  filter_val :: "nat \<Rightarrow> string list option"
  active_filters :: nat

definition get_filter_col :: "filter_state \<Rightarrow> nat \<Rightarrow> string" where
  "get_filter_col st i = (case filter_col st i of None \<Rightarrow> [] | Some c \<Rightarrow> c)"

definition get_filter_val :: "filter_state \<Rightarrow> nat \<Rightarrow> string list" where
  "get_filter_val st i = (case filter_val st i of None \<Rightarrow> [] | Some vs \<Rightarrow> vs)"

definition selectbox :: "string list \<Rightarrow> string option \<Rightarrow> string" where
  "selectbox options stored =
     (case stored of
        Some v \<Rightarrow> if v \<in> set options then v else hd options
      | None \<Rightarrow> hd options)"

definition multiselect :: "string list \<Rightarrow> string list option \<Rightarrow> string list" where
  "multiselect options stored =
     (case stored of
        Some vs \<Rightarrow> if set vs \<subseteq> set options then vs else []
      | None \<Rightarrow> [])"


text \<open>
  \<^verbatim>\<open>df[df[column].isin(values)]\<close>: the rows whose cell in the column is one of the
  values; \<^verbatim>\<open>KeyError\<close> when the frame has no such column.
\<close>

definition isin_rows :: "table \<Rightarrow> string \<Rightarrow> string list \<Rightarrow> py_error + table" where
  "isin_rows df c vs =
     (case index_of (columns df) c of
        None \<Rightarrow> Inl KeyError
      | Some k \<Rightarrow> Inr (df\<lparr>rows := filter (\<lambda>r. r ! k \<in> Some ` set vs) (rows df)\<rparr>))"

text \<open>\<^verbatim>\<open>_apply_filters_up_to\<close> (lines 85-101): collect, then apply in sequence.\<close>

definition collect_filters :: "filter_state \<Rightarrow> nat \<Rightarrow> (string \<times> string list) list" where
  "collect_filters st filter_num =
     concat (map (\<lambda>i. (let c = get_filter_col st i; vs = get_filter_val st i
                        in if c \<noteq> [] \<and> vs \<noteq> [] then [(c, vs)] else []))
               [0..<filter_num])"

fun apply_each :: "table \<Rightarrow> (string \<times> string list) list \<Rightarrow> py_error + table" where
  "apply_each df [] = Inr df"
| "apply_each df ((c, vs) # fs) =
     (case isin_rows df c vs of Inl e \<Rightarrow> Inl e | Inr df' \<Rightarrow> apply_each df' fs)"

definition apply_filters_up_to :: "table \<Rightarrow> filter_state \<Rightarrow> nat \<Rightarrow> py_error + table" where
  "apply_filters_up_to df st filter_num = apply_each df (collect_filters st filter_num)"

text \<open>
  \<^verbatim>\<open>_render_filter_widget\<close> (lines 103-142). The result is the session state (the slot
  counter may have grown), the options offered by the multiselect when it is shown
  (\<^verbatim>\<open>sorted(current_filtered_df[filter_col].dropna().unique())\<close>), and the filter
  returned, if any. The test \<^verbatim>\<open>filter_num == active_filters - 1\<close> is on integers.
\<close>

definition render_filter_widget ::
  "table \<Rightarrow> filter_state \<Rightarrow> nat \<Rightarrow>
   py_error + (filter_state \<times> string list option \<times> (string \<times> string list) option)" where
  "render_filter_widget df st filter_num =
     (case apply_filters_up_to df st filter_num of
        Inl e \<Rightarrow> Inl e
      | Inr current_filtered_df \<Rightarrow>
          (let fcol = selectbox ([] # columns current_filtered_df) (filter_col st filter_num);
               st1 = st\<lparr>filter_col := (filter_col st)(filter_num \<mapsto> fcol)\<rparr>;
               st2 = (if fcol \<noteq> [] \<and> int filter_num = int (active_filters st1) - 1
                      then st1\<lparr>active_filters := active_filters st1 + 1\<rparr> else st1)
           in if fcol \<noteq> [] then
                (case index_of (columns current_filtered_df) fcol of
                   None \<Rightarrow> Inl KeyError
                 | Some k \<Rightarrow>
                     (let unique_values =
                            sort (py_unique (List.map_filter (\<lambda>r. r ! k) (rows current_filtered_df)));
                          selected_values = multiselect unique_values (filter_val st2 filter_num);
                          st3 = st2\<lparr>filter_val := (filter_val st2)(filter_num \<mapsto> selected_values)\<rparr>
                      in Inr (st3, Some unique_values,
                              if selected_values \<noteq> [] then Some (fcol, selected_values)
                              else None)))
              else Inr (st2, None, None)))"

text \<open>
  \<^verbatim>\<open>render\<close> (lines 144-172). The loop runs over \<^verbatim>\<open>range(active_filters)\<close> as it is
  when the loop starts; it collects the filters returned and (for the statements below)
  the options each slot offered. The result is the frame returned, with the final state
  and the offered options.
\<close>

fun render_widgets ::
  "table \<Rightarrow> nat list \<Rightarrow>
   filter_state \<times> string list option list \<times> (string \<times> string list) list \<Rightarrow>
   py_error + (filter_state \<times> string list option list \<times> (string \<times> string list) list)" where
  "render_widgets df [] acc = Inr acc"
| "render_widgets df (i # is) (st, offered, active) =
     (case render_filter_widget df st i of
        Inl e \<Rightarrow> Inl e
      | Inr (st', opts, filter_info) \<Rightarrow>
          render_widgets df is
            (st', offered @ [opts],
             (case filter_info of None \<Rightarrow> active | Some f \<Rightarrow> active @ [f])))"

definition render ::
  "table \<Rightarrow> filter_state \<Rightarrow> py_error + (table \<times> filter_state \<times> string list option list)" where
  "render df st =
     (case render_widgets df [0..<active_filters st] (st, [], []) of
        Inl e \<Rightarrow> Inl e
      | Inr (st', offered, active) \<Rightarrow>
          (case apply_filters_up_to df st' (length active) of
             Inl e \<Rightarrow> Inl e
           | Inr filtered_df \<Rightarrow> Inr (filtered_df, st', offered)))"

section \<open>Example inputs\<close>

text \<open>
  A spreadsheet of eleven rows and two columns: every cell of columns A and B is filled,
  there is no column C.
\<close>

definition two_column_grid :: grid where
  "two_column_grid = replicate 11 [Val ''a'', Val ''b'']"

text \<open>
  A frame of two columns and two rows, and a session in which the user chose column
  \<open>A\<close> in the first filter slot without selecting values, then column \<open>B\<close> and the value
  \<open>b1\<close> in the second slot.
\<close>

definition ab_frame :: table where
  "ab_frame = \<lparr>columns = [''A'', ''B''],
               rows = [[Some ''a1'', Some ''b1''], [Some ''a2'', Some ''b2'']]\<rparr>"

definition second_slot_state :: filter_state where
  "second_slot_state =
     \<lparr>filter_col = [0 \<mapsto> ''A'', 1 \<mapsto> ''B''],
      filter_val = [0 \<mapsto> [], 1 \<mapsto> [''b1'']],
      active_filters = 2\<rparr>"

text \<open>
  The same choices as the session holds them after these clicks: choosing column \<open>B\<close> in
  the second slot has opened a third, empty slot.
\<close>

definition third_slot_state :: filter_state where
  "third_slot_state =
     \<lparr>filter_col = [0 \<mapsto> ''A'', 1 \<mapsto> ''B'', 2 \<mapsto> []],
      filter_val = [0 \<mapsto> [], 1 \<mapsto> [''b1'']],
      active_filters = 3\<rparr>"


section \<open>Notions used in the statements\<close>

text \<open>
  The sentinel translation of the upsert, \<^verbatim>\<open>edited_df.replace(['not in pig'], [''])\<close>,
  on one cell.
\<close>

definition translate_sentinel :: "cell \<Rightarrow> cell" where
  "translate_sentinel x = (if x = Some ''not in pig'' then Some [] else x)"

text \<open>
  The record that the upsert prepares from a row \<open>g\<close> of the edited grid (columns
  \<^verbatim>\<open>COLUMN_ORDER\<close>), column by column of the store: the chosen category and status,
  every other field from the grid, the sentinel translated.
\<close>

definition stored_record :: "cell \<Rightarrow> cell \<Rightarrow> row \<Rightarrow> row" where
  "stored_record category status g =
     map (\<lambda>c. translate_sentinel
                 (if c = ''Category'' then category
                  else if c = ''Status'' then status
                  else g ! the (index_of COLUMN_ORDER c)))
       STORE_COLUMNS"

text \<open>The \<^verbatim>\<open>Item\<close> of a row of the store.\<close>

definition store_item :: "row \<Rightarrow> cell" where
  "store_item r = r ! the (index_of STORE_COLUMNS ''Item'')"

text \<open>The cell of a row in the column named \<open>c\<close>, for a row over the columns \<open>cols\<close>.\<close>

definition field_of :: "string list \<Rightarrow> row \<Rightarrow> string \<Rightarrow> cell" where
  "field_of cols r c = r ! the (index_of cols c)"

section \<open>Example stores and grids\<close>

text \<open>
  A store with a record for item \<open>A1\<close> and one for item \<open>B2\<close>, and an edited grid with one
  row for \<open>A1\<close> in which every other field still holds the sentinel.
\<close>

definition example_store :: table where
  "example_store =
     \<lparr>columns = STORE_COLUMNS,
      rows = [Some ''A1'' # replicate 45 (Some ''old''), Some ''B2'' # replicate 45 (Some ''kept'')]\<rparr>"

definition example_grid_row :: row where
  "example_grid_row = Some ''A1'' # replicate 44 (Some ''not in pig'')"

definition example_grid :: table where
  "example_grid = \<lparr>columns = COLUMN_ORDER, rows = [example_grid_row]\<rparr>"

text \<open>A store that holds a placeholder row, as a partition file may contain one.\<close>

definition placeholder_row :: row where
  "placeholder_row = Some ''no item'' # replicate 45 (Some ''x'')"

definition placeholder_store :: table where
  "placeholder_store = \<lparr>columns = STORE_COLUMNS, rows = [placeholder_row]\<rparr>"

text \<open>A store in which two different rows carry the same item \<open>X\<close>.\<close>

definition duplicate_store :: table where
  "duplicate_store =
     \<lparr>columns = STORE_COLUMNS,
      rows = [Some ''X'' # replicate 45 (Some ''u''), Some ''X'' # replicate 45 (Some ''v'')]\<rparr>"

text \<open>
  A vendor sheet of 67 columns \<open>V0\<close>, \<open>V1\<close>, \<dots>, \<open>V66\<close> with one row, and one of two
  columns.
\<close>

definition wide_vendor :: "pcell frame" where
  "wide_vendor =
     \<lparr>columns = map (\<lambda>i. ''V'' @ str_nat i) [0..<67],
      rows = [map (\<lambda>i. Text (str_nat i)) [0..<67]]\<rparr>"

definition narrow_vendor :: "pcell frame" where
  "narrow_vendor = \<lparr>columns = [''Item'', ''Other''], rows = [[Text ''B2'', Text ''x'']]\<rparr>"

text \<open>\<^verbatim>\<open>fillna('')\<close> on one cell.\<close>

definition fill_empty :: "pcell \<Rightarrow> pcell" where
  "fill_empty x = (case x of Missing \<Rightarrow> Text [] | Text s \<Rightarrow> Text s | Number n \<Rightarrow> Number n)"

text \<open>
  Local data for the items \<open>A\<close> and \<open>B\<close> with one local column, vendor data for the items
  \<open>B\<close> and \<open>C\<close> with one vendor column.
\<close>

definition local_ab :: "pcell frame" where
  "local_ab = \<lparr>columns = [''Item'', ''Brand''],
               rows = [[Text ''A'', Text ''brand of A''], [Text ''B'', Text ''brand of B'']]\<rparr>"

definition vendor_bc :: "pcell frame" where
  "vendor_bc = \<lparr>columns = [''Item'', ''Price''],
                rows = [[Text ''B'', Text ''price of B''], [Text ''C'', Text ''price of C'']]\<rparr>"

text \<open>
  The same with a digit-only item: the store holds the items \<open>A\<close> and \<open>123\<close> as text, and
  the vendor sheet holds \<open>123\<close> in a numeric cell, which \<^verbatim>\<open>pd.read_excel\<close> returns as the
  number 123, and the item \<open>C\<close>.
\<close>

definition local_digits :: table where
  "local_digits = \<lparr>columns = [''Item'', ''Brand''],
                   rows = [[Some ''A'', Some ''brand of A''], [Some ''123'', Some ''brand of 123'']]\<rparr>"

definition vendor_digits :: "pcell frame" where
  "vendor_digits = \<lparr>columns = [''Item'', ''Price''],
                    rows = [[Number 123, Text ''price of 123''], [Text ''C'', Text ''price of C'']]\<rparr>"

text \<open>A store that holds a placeholder row beside a record for item \<open>A1\<close>.\<close>

definition mixed_store :: table where
  "mixed_store =
     \<lparr>columns = STORE_COLUMNS,
      rows = [placeholder_row, Some ''A1'' # replicate 45 (Some ''old'')]\<rparr>"

section \<open>Cell Mapper: out-of-range cells\<close>

text \<open>
  Claim C4. For every grid and every field of the mapping table, a cell coordinate that is
  absent or outside the grid, or an empty cell, gives the field the sentinel
  \<^verbatim>\<open>not in pig\<close>, and the mapping never fails on such input.

  The code does not do this when the row of the coordinate exists and its column does not.
  The field \<^verbatim>\<open>SEO Enhanced Bullets 1\<close> is mapped to \<^verbatim>\<open>C11\<close>; on a spreadsheet with eleven
  rows and the columns A and B only, \<^verbatim>\<open>df.iloc[10]\<close> succeeds and the lookup of label 2 in
  that row raises \<^verbatim>\<open>KeyError\<close>, which \<^verbatim>\<open>except (IndexError, ValueError)\<close> does not
  catch: \<^verbatim>\<open>extract_cell_value\<close> raises, and \<^verbatim>\<open>process_pig_file\<close> returns
  \<^verbatim>\<open>(False, None)\<close> instead of a record.
\<close>

theorem C4_missing_column_fails:
  "map_of ALL_MAPPINGS ''SEO Enhanced Bullets 1'' = Some (''C11'', ''not in pig'') \<and>
   extract_cell_value two_column_grid ''C11'' = Inl KeyError \<and>
   process_pig_file two_column_grid = None"
  by (intro conjI; code_simp)

section \<open>Filter Engine: the frame returned by \<^verbatim>\<open>render\<close>\<close>

text \<open>
  Claim C9. Filter \<open>N\<close> is evaluated on the data narrowed by the filters before it, each
  step offers only the values present in that narrowed data, and \<^verbatim>\<open>render\<close> returns the
  data narrowed by every filter that has a column and a non-empty selection.

  The last part fails in the code: \<^verbatim>\<open>render\<close> ends with
  \<^verbatim>\<open>_apply_filters_up_to(len(active_filters))\<close>, the number of complete filters, where the
  number of slots is needed. With an incomplete first slot and a complete second slot the
  count is 1, only slot 0 is read, and the frame comes back unfiltered, whereas the two
  slots together select the single row with \<open>B = b1\<close>. The same happens in the state
  the session is in after these choices were clicked, where a third, empty slot is open.
\<close>

theorem C9_render_skips_complete_filter:
  "map_sum id fst (render ab_frame second_slot_state) = Inr ab_frame \<and>
   apply_filters_up_to ab_frame second_slot_state (active_filters second_slot_state) =
     Inr \<lparr>columns = [''A'', ''B''], rows = [[Some ''a1'', Some ''b1'']]\<rparr> \<and>
   map_sum id fst (render ab_frame third_slot_state) = Inr ab_frame \<and>
   apply_filters_up_to ab_frame third_slot_state (active_filters third_slot_state) =
     Inr \<lparr>columns = [''A'', ''B''], rows = [[Some ''a1'', Some ''b1'']]\<rparr>"
  by (intro conjI; code_simp)

section \<open>Auxiliary facts\<close>

lemma index_of_Some: "index_of xs c = Some k \<Longrightarrow> k < length xs \<and> xs ! k = c"
  by (induction xs arbitrary: k) (auto split: if_splits)

lemma index_of_None_iff: "index_of xs c = None \<longleftrightarrow> c \<notin> set xs"
  by (induction xs) auto

lemma index_of_mem: "c \<in> set xs \<Longrightarrow> \<exists>k. index_of xs c = Some k"
  using index_of_None_iff [of xs c] by (cases "index_of xs c") auto

lemma index_of_append_mem: "c \<in> set xs \<Longrightarrow> index_of (xs @ ys) c = index_of xs c"
  by (induction xs) auto

lemma index_of_append_new: "c \<notin> set xs \<Longrightarrow> index_of (xs @ [c]) c = Some (length xs)"
  by (induction xs) auto

lemma length_COLUMN_ORDER: "length COLUMN_ORDER = 45"
  by (simp add: COLUMN_ORDER_def)

lemma length_STORE_COLUMNS: "length STORE_COLUMNS = 46"
  by (simp add: STORE_COLUMNS_def)

lemma Status_notin_COLUMN_ORDER: "''Status'' \<notin> set COLUMN_ORDER"
  by (simp add: COLUMN_ORDER_def)

lemma Category_in_COLUMN_ORDER: "''Category'' \<in> set COLUMN_ORDER"
  by (simp add: COLUMN_ORDER_def)

lemma STORE_COLUMNS_split: "STORE_COLUMNS = take 3 COLUMN_ORDER @ ''Status'' # drop 3 COLUMN_ORDER"
  by (simp add: STORE_COLUMNS_def COLUMN_ORDER_def)

lemma set_STORE_COLUMNS: "set STORE_COLUMNS = insert ''Status'' (set COLUMN_ORDER)"
proof -
  have "set STORE_COLUMNS = insert ''Status'' (set (take 3 COLUMN_ORDER @ drop 3 COLUMN_ORDER))"
    unfolding STORE_COLUMNS_split by (simp only: set_append set_simps) blast
  then show ?thesis by (simp only: append_take_drop_id)
qed

lemma index_of_Item_STORE: "index_of STORE_COLUMNS ''Item'' = Some 0"
  by (simp add: STORE_COLUMNS_def)

lemma index_of_Item_COLUMN_ORDER: "index_of COLUMN_ORDER ''Item'' = Some 0"
  by (simp add: COLUMN_ORDER_def)

lemma prepared_row:
  assumes "length g = 45"
  shows "map (\<lambda>x. if x = Some ''not in pig'' then Some [] else x)
           (map (\<lambda>c. (map2 (\<lambda>n x. if n = ''Category'' then category else x) COLUMN_ORDER g @ [status]) !
                       the (index_of (COLUMN_ORDER @ [''Status'']) c)) STORE_COLUMNS)
         = stored_record category status g"
  unfolding stored_record_def map_map
proof (rule map_cong [OF refl])
  fix c assume c: "c \<in> set STORE_COLUMNS"
  let ?a = "map2 (\<lambda>n x. if n = ''Category'' then category else x) COLUMN_ORDER g"
  have la: "length ?a = 45" using assms by (simp add: length_COLUMN_ORDER)
  show "((\<lambda>x. if x = Some ''not in pig'' then Some [] else x) \<circ>
         (\<lambda>c. (?a @ [status]) ! the (index_of (COLUMN_ORDER @ [''Status'']) c))) c =
        translate_sentinel (if c = ''Category'' then category else if c = ''Status'' then status
           else g ! the (index_of COLUMN_ORDER c))"
  proof (cases "c = ''Status''")
    case True
    have "index_of (COLUMN_ORDER @ [''Status'']) ''Status'' = Some 45"
      using index_of_append_new [OF Status_notin_COLUMN_ORDER] by (simp add: length_COLUMN_ORDER)
    then show ?thesis using True la by (simp add: translate_sentinel_def nth_append)
  next
    case False
    then have cin: "c \<in> set COLUMN_ORDER" using c by (simp add: set_STORE_COLUMNS)
    then obtain k where k: "index_of COLUMN_ORDER c = Some k" using index_of_mem by blast
    then have kk: "k < 45" "COLUMN_ORDER ! k = c"
      using index_of_Some [OF k] by (simp_all add: length_COLUMN_ORDER)
    have e1: "the (index_of (COLUMN_ORDER @ [''Status'']) c) = k"
      using k cin by (simp add: index_of_append_mem)
    have "(?a @ [status]) ! k = ?a ! k" using kk la by (simp add: nth_append)
    also have "\<dots> = (if c = ''Category'' then category else g ! k)"
      using kk assms by (simp add: length_COLUMN_ORDER)
    finally have e2: "(?a @ [status]) ! k = (if c = ''Category'' then category else g ! k)" .
    show ?thesis unfolding comp_def e1 e2 using False k
      by (simp add: translate_sentinel_def)
  qed
qed


lemma store_item_nth: "store_item r = r ! 0"
  by (simp add: store_item_def index_of_Item_STORE)

lemma keep_iff:
  "is_true (sql_and (sql_neq a k) (sql_not_in a vs)) \<longleftrightarrow>
   (\<exists>s t. a = Some s \<and> k = Some t \<and> s \<noteq> t \<and> s \<notin> set vs)"
  by (cases a; cases k) (auto simp: is_true_def sql_and_def sql_neq_def sql_not_in_def)

lemma ins_iff:
  "is_true (sql_and (sql_eq a k) (sql_not_in a vs)) \<longleftrightarrow>
   (\<exists>s. a = Some s \<and> k = Some s \<and> s \<notin> set vs)"
  by (cases a; cases k) (auto simp: is_true_def sql_and_def sql_eq_def sql_not_in_def)

lemma eq_iff: "is_true (sql_eq a k) \<longleftrightarrow> (\<exists>s. a = Some s \<and> k = Some s)"
  by (cases a; cases k) (auto simp: is_true_def sql_eq_def)

lemma kept_after_delete:
  "filter (\<lambda>r. \<not> is_true (sql_eq (r ! i) k) \<and>
               is_true (sql_and (sql_neq (r ! i) k) (sql_not_in (r ! i) vs))) xs =
   filter (\<lambda>r. is_true (sql_and (sql_neq (r ! i) k) (sql_not_in (r ! i) vs))) xs"
  by (rule filter_cong [OF refl]) (auto simp: keep_iff eq_iff)

lemma prepared_table:
  assumes "columns ed = COLUMN_ORDER" "wf_table ed"
  shows "map_sum id (\<lambda>t. replace_value t ''not in pig'' [])
           (select_columns (assign_column (assign_column ed ''Category'' category) ''Status'' status)
              STORE_COLUMNS) =
         Inr \<lparr>columns = STORE_COLUMNS, rows = map (stored_record category status) (rows ed)\<rparr>"
proof -
  have len: "\<And>r. r \<in> set (rows ed) \<Longrightarrow> length r = 45"
    using assms by (simp add: wf_table_def list_all_iff length_COLUMN_ORDER)
  have a1: "assign_column ed ''Category'' category =
      ed\<lparr>rows := map (\<lambda>r. map2 (\<lambda>n x. if n = ''Category'' then category else x) COLUMN_ORDER r) (rows ed)\<rparr>"
    using assms(1) Category_in_COLUMN_ORDER by (simp add: assign_column_def)
  have a2: "assign_column (assign_column ed ''Category'' category) ''Status'' status =
      \<lparr>columns = COLUMN_ORDER @ [''Status''],
       rows = map (\<lambda>r. map2 (\<lambda>n x. if n = ''Category'' then category else x) COLUMN_ORDER r @ [status]) (rows ed)\<rparr>"
    unfolding a1 using assms(1) Status_notin_COLUMN_ORDER by (simp add: assign_column_def o_def)
  have sub: "set STORE_COLUMNS \<subseteq> set (COLUMN_ORDER @ [''Status''])"
    unfolding set_STORE_COLUMNS by auto
  have a3: "select_columns (assign_column (assign_column ed ''Category'' category) ''Status'' status) STORE_COLUMNS =
      Inr \<lparr>columns = STORE_COLUMNS,
           rows = map (\<lambda>r. map (\<lambda>c. (map2 (\<lambda>n x. if n = ''Category'' then category else x) COLUMN_ORDER r @ [status]) !
                       the (index_of (COLUMN_ORDER @ [''Status'']) c)) STORE_COLUMNS) (rows ed)\<rparr>"
    unfolding a2 using sub by (simp add: select_columns_def o_def)
  let ?F = "\<lambda>r. map (\<lambda>c. (map2 (\<lambda>n x. if n = ''Category'' then category else x) COLUMN_ORDER r @ [status]) !
                       the (index_of (COLUMN_ORDER @ [''Status'']) c)) STORE_COLUMNS"
  let ?tr = "\<lambda>x. if x = Some ''not in pig'' then Some [] else x"
  have "replace_value \<lparr>columns = STORE_COLUMNS, rows = map ?F (rows ed)\<rparr> ''not in pig'' [] =
        \<lparr>columns = STORE_COLUMNS, rows = map (\<lambda>r. map ?tr (?F r)) (rows ed)\<rparr>"
    by (simp add: replace_value_def)
  moreover have "map (\<lambda>r. map ?tr (?F r)) (rows ed) = map (stored_record category status) (rows ed)"
    by (rule map_cong [OF refl]) (rule prepared_row [OF len])
  ultimately show ?thesis unfolding a3 by simp
qed

lemma upsert_eq:
  assumes "columns pd = STORE_COLUMNS" "columns ed = COLUMN_ORDER" "wf_table ed" "rows ed = g # gs"
  shows "upsert pd ed category status =
         Inr \<lparr>columns = STORE_COLUMNS,
              rows = remdups (sort_key (\<lambda>r. item_key (r ! 0))
                (filter (\<lambda>r. is_true (sql_and (sql_neq (r ! 0) (g ! 0)) (sql_not_in (r ! 0) NO_ITEM))) (rows pd) @
                 filter (\<lambda>r. is_true (sql_and (sql_eq (r ! 0) (g ! 0)) (sql_not_in (r ! 0) NO_ITEM)))
                   (map (stored_record category status) (rows ed))))\<rparr>"
proof -
  from prepared_table [OF assms(2,3), of category status]
  obtain e3 where e3: "select_columns (assign_column (assign_column ed ''Category'' category) ''Status'' status)
              STORE_COLUMNS = Inr e3"
    and e4: "replace_value e3 ''not in pig'' [] =
       \<lparr>columns = STORE_COLUMNS, rows = map (stored_record category status) (rows ed)\<rparr>"
    by (cases "select_columns (assign_column (assign_column ed ''Category'' category) ''Status'' status)
              STORE_COLUMNS") auto
  show ?thesis
    unfolding upsert_def
    by (simp add: assms(1,2,4) index_of_Item_STORE index_of_Item_COLUMN_ORDER e3 e4 Let_def
        delete_item_def kept_after_delete length_STORE_COLUMNS)
qed

lemma stored_record_item: "stored_record category status g ! 0 = translate_sentinel (g ! 0)"
proof -
  have "stored_record category status g ! 0 =
        translate_sentinel (if STORE_COLUMNS ! 0 = ''Category'' then category
           else if STORE_COLUMNS ! 0 = ''Status'' then status
           else g ! the (index_of COLUMN_ORDER (STORE_COLUMNS ! 0)))"
    unfolding stored_record_def by (rule nth_map) (simp add: length_STORE_COLUMNS)
  moreover have "STORE_COLUMNS ! 0 = ''Item''" by (simp add: STORE_COLUMNS_def)
  ultimately show ?thesis by (simp add: index_of_Item_COLUMN_ORDER)
qed


lemma stored_record_field:
  assumes "c \<in> set STORE_COLUMNS"
  shows "field_of STORE_COLUMNS (stored_record category status g) c =
         translate_sentinel (if c = ''Category'' then category
                             else if c = ''Status'' then status
                             else field_of COLUMN_ORDER g c)"
proof -
  obtain k where k: "index_of STORE_COLUMNS c = Some k" using index_of_mem [OF assms] by blast
  from index_of_Some [OF k] have kk: "k < length STORE_COLUMNS" "STORE_COLUMNS ! k = c" by simp_all
  have "stored_record category status g ! k =
        translate_sentinel (if STORE_COLUMNS ! k = ''Category'' then category
           else if STORE_COLUMNS ! k = ''Status'' then status
           else g ! the (index_of COLUMN_ORDER (STORE_COLUMNS ! k)))"
    unfolding stored_record_def by (rule nth_map) (rule kk(1))
  then show ?thesis unfolding field_of_def k option.sel kk(2) .
qed

lemma translate_sentinel_no_sentinel: "translate_sentinel x \<noteq> Some ''not in pig''"
  by (simp add: translate_sentinel_def)

lemma stored_record_no_sentinel: "Some ''not in pig'' \<notin> set (stored_record category status g)"
proof
  assume "Some ''not in pig'' \<in> set (stored_record category status g)"
  then obtain c where "translate_sentinel (if c = ''Category'' then category
                  else if c = ''Status'' then status
                  else g ! the (index_of COLUMN_ORDER c)) = Some ''not in pig''"
    unfolding stored_record_def set_map by (elim imageE) (rule that, rule sym)
  then show False using translate_sentinel_no_sentinel by blast
qed

lemma length_stored_record: "length (stored_record category status g) = 46"
  by (simp add: stored_record_def length_STORE_COLUMNS)


lemma upsert_rows:
  assumes "columns pd = STORE_COLUMNS" "columns ed = COLUMN_ORDER" "wf_table ed" "rows ed = g # gs"
  shows "\<exists>pd'. upsert pd ed category status = Inr pd' \<and> columns pd' = STORE_COLUMNS \<and>
           distinct (rows pd') \<and>
           set (rows pd') =
             {r \<in> set (rows pd). \<exists>s t. r ! 0 = Some s \<and> g ! 0 = Some t \<and> s \<noteq> t \<and> s \<notin> set NO_ITEM} \<union>
             {r \<in> stored_record category status ` set (rows ed).
                \<exists>s. r ! 0 = Some s \<and> g ! 0 = Some s \<and> s \<notin> set NO_ITEM}"
  unfolding upsert_eq [OF assms]
  apply (intro exI conjI)
     apply (rule refl)
    apply simp
   apply simp
  apply (simp only: frame.simps set_remdups set_sort set_append set_filter set_map keep_iff ins_iff)
  done

lemma wf_single: "columns ed = COLUMN_ORDER \<Longrightarrow> rows ed = [g] \<Longrightarrow> length g = 45 \<Longrightarrow> wf_table ed"
  by (simp add: wf_table_def length_COLUMN_ORDER)

lemma upsert_single:
  assumes "columns pd = STORE_COLUMNS" "columns ed = COLUMN_ORDER" "rows ed = [g]" "length g = 45"
    "g ! 0 = Some k" "k \<notin> set NO_ITEM" "k \<noteq> ''not in pig''"
  shows "\<exists>pd'. upsert pd ed category status = Inr pd' \<and> columns pd' = STORE_COLUMNS \<and>
           distinct (rows pd') \<and>
           set (rows pd') =
             insert (stored_record category status g)
               {r \<in> set (rows pd). \<exists>s. r ! 0 = Some s \<and> s \<noteq> k \<and> s \<notin> set NO_ITEM}"
proof -
  have wf: "wf_table ed" using assms(2,3,4) by (rule wf_single)
  have it: "stored_record category status g ! 0 = Some k"
    using assms(5,7) by (simp add: stored_record_item translate_sentinel_def)
  from upsert_rows [OF assms(1,2) wf assms(3), of category status]
  obtain pd' where pd': "upsert pd ed category status = Inr pd'" "columns pd' = STORE_COLUMNS"
      "distinct (rows pd')"
    and s: "set (rows pd') =
             {r \<in> set (rows pd). \<exists>s t. r ! 0 = Some s \<and> g ! 0 = Some t \<and> s \<noteq> t \<and> s \<notin> set NO_ITEM} \<union>
             {r \<in> stored_record category status ` set (rows ed).
                \<exists>s. r ! 0 = Some s \<and> g ! 0 = Some s \<and> s \<notin> set NO_ITEM}"
    by blast
  have a: "{r \<in> set (rows pd). \<exists>s t. r ! 0 = Some s \<and> g ! 0 = Some t \<and> s \<noteq> t \<and> s \<notin> set NO_ITEM} =
           {r \<in> set (rows pd). \<exists>s. r ! 0 = Some s \<and> s \<noteq> k \<and> s \<notin> set NO_ITEM}"
    using assms(5) by simp
  have b: "{r \<in> stored_record category status ` set (rows ed).
                \<exists>s. r ! 0 = Some s \<and> g ! 0 = Some s \<and> s \<notin> set NO_ITEM} =
           {stored_record category status g}"
    using assms(3,5,6) it by auto
  show ?thesis using pd' s unfolding a b by simp
qed

section \<open>Dataset Store: the upsert replaces by key\<close>

text \<open>
  Claim C1 (as amended). The claim reads: for every store and every accepted record, the
  upsert removes the row with the record's \<^verbatim>\<open>Item\<close>, inserts the record, so that the
  stored record for that \<^verbatim>\<open>Item\<close> equals the record (the whole row is replaced, no field
  is merged), and rows with other \<^verbatim>\<open>Item\<close> values are carried over.

  The code carries over the rows with another \<^verbatim>\<open>Item\<close> only when that \<^verbatim>\<open>Item\<close> is a
  text other than \<^verbatim>\<open>no item\<close> and \<^verbatim>\<open>no_item\<close>, and it stores the record only when the
  record's own \<^verbatim>\<open>Item\<close> is such a text. What is proved: for a store with the schema
  \<^verbatim>\<open>STORE_COLUMNS\<close> and an edited grid with one row \<open>g\<close> whose \<^verbatim>\<open>Item\<close> is a text \<open>k\<close>
  other than \<^verbatim>\<open>no item\<close>, \<^verbatim>\<open>no_item\<close> and the sentinel, the upsert succeeds; the record
  prepared from \<open>g\<close> is in the new store and is the only row with \<^verbatim>\<open>Item\<close> \<open>k\<close>, whatever
  the store held for \<open>k\<close> before; the new store has no duplicate rows; and a row with
  another \<^verbatim>\<open>Item\<close> is in the new store exactly when it was in the old store and its
  \<^verbatim>\<open>Item\<close> is a text other than \<^verbatim>\<open>no item\<close> and \<^verbatim>\<open>no_item\<close>.
\<close>

theorem C1_upsert_replaces_by_key:
  assumes "columns pig_data = STORE_COLUMNS" and "columns edited_df = COLUMN_ORDER"
    and "rows edited_df = [g]" and "length g = 45"
    and "field_of COLUMN_ORDER g ''Item'' = Some k"
    and "k \<notin> set NO_ITEM" and "k \<noteq> ''not in pig''"
  shows "\<exists>pd'. upsert pig_data edited_df category status = Inr pd' \<and>
           columns pd' = STORE_COLUMNS \<and>
           stored_record category status g \<in> set (rows pd') \<and>
           store_item (stored_record category status g) = Some k \<and>
           (\<forall>r \<in> set (rows pd'). store_item r = Some k \<longrightarrow> r = stored_record category status g) \<and>
           distinct (rows pd') \<and>
           (\<forall>r. store_item r \<noteq> Some k \<longrightarrow>
                (r \<in> set (rows pd') \<longleftrightarrow>
                 r \<in> set (rows pig_data) \<and> (\<exists>s. store_item r = Some s \<and> s \<notin> set NO_ITEM)))"
proof -
  have g0: "g ! 0 = Some k"
    using assms(5) by (simp add: field_of_def index_of_Item_COLUMN_ORDER)
  have it: "store_item (stored_record category status g) = Some k"
    using g0 assms(7) by (simp add: store_item_nth stored_record_item translate_sentinel_def)
  from upsert_single [OF assms(1-4) g0 assms(6,7), of category status]
  obtain pd' where pd': "upsert pig_data edited_df category status = Inr pd'"
      "columns pd' = STORE_COLUMNS" "distinct (rows pd')"
    and s: "set (rows pd') =
             insert (stored_record category status g)
               {r \<in> set (rows pig_data). \<exists>s. r ! 0 = Some s \<and> s \<noteq> k \<and> s \<notin> set NO_ITEM}"
    by blast
  have c1: "stored_record category status g \<in> set (rows pd')" using s by simp
  have c2: "\<forall>r \<in> set (rows pd'). store_item r = Some k \<longrightarrow> r = stored_record category status g"
    using s by (auto simp: store_item_nth)
  have c3: "\<forall>r. store_item r \<noteq> Some k \<longrightarrow>
                (r \<in> set (rows pd') \<longleftrightarrow>
                 r \<in> set (rows pig_data) \<and> (\<exists>s. store_item r = Some s \<and> s \<notin> set NO_ITEM))"
    using s it by (auto simp: store_item_nth)
  show ?thesis using pd' c1 it c2 c3 by blast
qed


theorem C1_upsert_replaces_by_key_witness:
  "columns example_store = STORE_COLUMNS \<and> columns example_grid = COLUMN_ORDER \<and>
   rows example_grid = [example_grid_row] \<and> length example_grid_row = 45 \<and>
   field_of COLUMN_ORDER example_grid_row ''Item'' = Some ''A1'' \<and>
   ''A1'' \<notin> set NO_ITEM \<and> ''A1'' \<noteq> ''not in pig'' \<and>
   (\<exists>pd'. upsert example_store example_grid (Some ''Tools'') (Some ''active'') = Inr pd' \<and>
          stored_record (Some ''Tools'') (Some ''active'') example_grid_row \<in> set (rows pd') \<and>
          distinct (rows pd'))"
proof -
  have h1: "columns example_store = STORE_COLUMNS" by (simp add: example_store_def)
  have h2: "columns example_grid = COLUMN_ORDER" by (simp add: example_grid_def)
  have h3: "rows example_grid = [example_grid_row]" by (simp add: example_grid_def)
  have h4: "length example_grid_row = 45" by (simp add: example_grid_row_def)
  have h5: "field_of COLUMN_ORDER example_grid_row ''Item'' = Some ''A1''"
    by (simp add: field_of_def index_of_Item_COLUMN_ORDER example_grid_row_def)
  have h6: "''A1'' \<notin> set NO_ITEM" by (simp add: NO_ITEM_def)
  have h7: "''A1'' \<noteq> ''not in pig''" by simp
  from C1_upsert_replaces_by_key [OF h1 h2 h3 h4 h5 h6 h7, of "Some ''Tools''" "Some ''active''"]
  show ?thesis using h1 h2 h3 h4 h5 h6 h7 by blast
qed

text \<open>
  The claim as stated fails on a store that holds a placeholder row: the row has another
  \<^verbatim>\<open>Item\<close> than the record, and the upsert drops it.
\<close>

theorem C1_placeholder_row_dropped:
  "placeholder_row \<in> set (rows placeholder_store) \<and>
   store_item placeholder_row = Some ''no item'' \<and>
   field_of COLUMN_ORDER example_grid_row ''Item'' = Some ''A1'' \<and>
   upsert placeholder_store example_grid (Some ''Tools'') (Some ''active'') =
     Inr \<lparr>columns = STORE_COLUMNS,
          rows = [stored_record (Some ''Tools'') (Some ''active'') example_grid_row]\<rparr> \<and>
   store_item (stored_record (Some ''Tools'') (Some ''active'') example_grid_row) = Some ''A1''"
proof -
  have h1: "columns placeholder_store = STORE_COLUMNS" by (simp add: placeholder_store_def)
  have h2: "columns example_grid = COLUMN_ORDER" by (simp add: example_grid_def)
  have h3: "rows example_grid = [example_grid_row]" by (simp add: example_grid_def)
  have h4: "wf_table example_grid"
    using h2 h3 by (rule wf_single) (simp add: example_grid_row_def)
  have g0: "example_grid_row ! 0 = Some ''A1''" by (simp add: example_grid_row_def)
  have p0: "placeholder_row ! 0 = Some ''no item''" by (simp add: placeholder_row_def)
  have s0: "stored_record (Some ''Tools'') (Some ''active'') example_grid_row ! 0 = Some ''A1''"
    by (simp add: stored_record_item g0 translate_sentinel_def)
  have "upsert placeholder_store example_grid (Some ''Tools'') (Some ''active'') =
     Inr \<lparr>columns = STORE_COLUMNS,
          rows = [stored_record (Some ''Tools'') (Some ''active'') example_grid_row]\<rparr>"
    unfolding upsert_eq [OF h1 h2 h4 h3]
    by (simp add: keep_iff ins_iff h3 g0 p0 s0 placeholder_store_def NO_ITEM_def)
  then show ?thesis
    by (simp add: store_item_nth p0 s0 placeholder_store_def field_of_def
        index_of_Item_COLUMN_ORDER g0)
qed

section \<open>Dataset Store: unique items\<close>

lemma example_store_rows_unique:
  "\<forall>r \<in> set (rows example_store). \<forall>r' \<in> set (rows example_store).
      store_item r = store_item r' \<longrightarrow> r = r'"
  by (simp add: example_store_def store_item_nth)

text \<open>
  Claim C3 (as amended). The claim reads: for every store state and every accepted record,
  after the upsert no two rows of \<^verbatim>\<open>pig_data\<close> share an \<^verbatim>\<open>Item\<close>.

  The upsert removes duplicates of the upserted \<^verbatim>\<open>Item\<close> and exact duplicate rows only.
  What is proved is that it preserves uniqueness: if in the store (schema
  \<^verbatim>\<open>STORE_COLUMNS\<close>) two rows with the same \<^verbatim>\<open>Item\<close> are always the same row, and the
  edited grid has one row, then the upsert succeeds and no two rows of the new store share
  an \<^verbatim>\<open>Item\<close>.
\<close>

theorem C3_upsert_keeps_items_unique:
  assumes "columns pig_data = STORE_COLUMNS" and "columns edited_df = COLUMN_ORDER"
    and "rows edited_df = [g]" and "length g = 45"
    and "\<forall>r \<in> set (rows pig_data). \<forall>r' \<in> set (rows pig_data).
           store_item r = store_item r' \<longrightarrow> r = r'"
  shows "\<exists>pd'. upsert pig_data edited_df category status = Inr pd' \<and>
           distinct (map store_item (rows pd'))"
proof -
  have wf: "wf_table edited_df" using assms(2,3,4) by (rule wf_single)
  from upsert_rows [OF assms(1,2) wf assms(3), of category status]
  obtain pd' where pd': "upsert pig_data edited_df category status = Inr pd'"
      "distinct (rows pd')"
    and s: "set (rows pd') =
             {r \<in> set (rows pig_data). \<exists>s t. r ! 0 = Some s \<and> g ! 0 = Some t \<and> s \<noteq> t \<and> s \<notin> set NO_ITEM} \<union>
             {r \<in> stored_record category status ` set (rows edited_df).
                \<exists>s. r ! 0 = Some s \<and> g ! 0 = Some s \<and> s \<notin> set NO_ITEM}"
    by blast
  have "inj_on store_item (set (rows pd'))"
  proof (rule inj_onI)
    fix r r' assume r: "r \<in> set (rows pd')" and r': "r' \<in> set (rows pd')"
      and e: "store_item r = store_item r'"
    from r s assms(3) consider
        (old) "r \<in> set (rows pig_data)" "\<exists>s t. r ! 0 = Some s \<and> g ! 0 = Some t \<and> s \<noteq> t"
      | (new) "r = stored_record category status g" "r ! 0 = g ! 0"
      by auto
    then show "r = r'"
    proof cases
      case old
      from r' s assms(3) consider
          (old') "r' \<in> set (rows pig_data)"
        | (new') "r' ! 0 = g ! 0"
        by auto
      then show ?thesis
      proof cases
        case old'
        then show ?thesis using old(1) e assms(5) by blast
      next
        case new'
        then show ?thesis using old(2) e by (auto simp: store_item_nth)
      qed
    next
      case new
      from r' s assms(3) consider
          (old') "\<exists>s t. r' ! 0 = Some s \<and> g ! 0 = Some t \<and> s \<noteq> t"
        | (new') "r' = stored_record category status g"
        by auto
      then show ?thesis
      proof cases
        case old'
        then show ?thesis using new(2) e by (auto simp: store_item_nth)
      next
        case new'
        then show ?thesis using new(1) by simp
      qed
    qed
  qed
  then have "distinct (map store_item (rows pd'))"
    using pd'(2) by (simp add: distinct_map)
  then show ?thesis using pd'(1) by blast
qed

theorem C3_upsert_keeps_items_unique_witness:
  "columns example_store = STORE_COLUMNS \<and> columns example_grid = COLUMN_ORDER \<and>
   rows example_grid = [example_grid_row] \<and> length example_grid_row = 45 \<and>
   (\<exists>pd'. upsert example_store example_grid (Some ''Tools'') (Some ''active'') = Inr pd' \<and>
          distinct (map store_item (rows pd')))"
proof -
  have h1: "columns example_store = STORE_COLUMNS" by (simp add: example_store_def)
  have h2: "columns example_grid = COLUMN_ORDER" by (simp add: example_grid_def)
  have h3: "rows example_grid = [example_grid_row]" by (simp add: example_grid_def)
  have h4: "length example_grid_row = 45" by (simp add: example_grid_row_def)
  from C3_upsert_keeps_items_unique [OF h1 h2 h3 h4 example_store_rows_unique,
      of "Some ''Tools''" "Some ''active''"]
  show ?thesis using h1 h2 h3 h4 by blast
qed

text \<open>
  The claim as stated fails on a store that holds two different rows for the item \<open>X\<close>
  (as after loading two partitions that both hold \<open>X\<close>): an upsert of \<open>A1\<close> keeps both.
\<close>

theorem C3_duplicate_items_survive:
  "map_sum id (\<lambda>t. map store_item (rows t))
     (upsert duplicate_store example_grid (Some ''Tools'') (Some ''active'')) =
   Inr [Some ''A1'', Some ''X'', Some ''X'']"
  by code_simp

section \<open>Dataset Store: the sentinel is translated before the merge\<close>

lemma example_row_stored:
  "\<exists>pd'. upsert example_store example_grid (Some ''Tools'') (Some ''active'') = Inr pd' \<and>
         stored_record (Some ''Tools'') (Some ''active'') example_grid_row \<in> set (rows pd')"
proof -
  have h1: "columns example_store = STORE_COLUMNS" by (simp add: example_store_def)
  have h2: "columns example_grid = COLUMN_ORDER" by (simp add: example_grid_def)
  have h3: "rows example_grid = [example_grid_row]" by (simp add: example_grid_def)
  have h4: "length example_grid_row = 45" by (simp add: example_grid_row_def)
  have h5: "example_grid_row ! 0 = Some ''A1''" by (simp add: example_grid_row_def)
  have h6: "''A1'' \<notin> set NO_ITEM" by (simp add: NO_ITEM_def)
  have h7: "''A1'' \<noteq> ''not in pig''" by simp
  from upsert_single [OF h1 h2 h3 h4 h5 h6 h7, of "Some ''Tools''" "Some ''active''"]
  show ?thesis by blast
qed

text \<open>
  Claim C7. For every accepted record, before it is merged, every field holding the
  sentinel \<^verbatim>\<open>not in pig\<close> is translated to the empty string, so that the stored record
  never contains the sentinel.

  For a store with the schema \<^verbatim>\<open>STORE_COLUMNS\<close> and a well-formed, non-empty edited grid
  over \<^verbatim>\<open>COLUMN_ORDER\<close>, the upsert succeeds, and every row of the new store that is not a
  row of the old store holds the sentinel in no cell; it is the record prepared from a row
  \<open>g\<close> of the grid, and where \<open>g\<close> holds the sentinel the record holds the empty string.
  (The export is built from the rows of the store, so the same holds of the exported
  record.)
\<close>

theorem C7_sentinel_translated_before_merge:
  assumes "columns pig_data = STORE_COLUMNS" and "columns edited_df = COLUMN_ORDER"
    and "wf_table edited_df" and "rows edited_df \<noteq> []"
  shows "\<exists>pd'. upsert pig_data edited_df category status = Inr pd' \<and>
           (\<forall>r \<in> set (rows pd'). r \<in> set (rows pig_data) \<or>
              (Some ''not in pig'' \<notin> set r \<and>
               (\<exists>g \<in> set (rows edited_df). r = stored_record category status g \<and>
                  (\<forall>c \<in> set STORE_COLUMNS.
                     c \<noteq> ''Category'' \<and> c \<noteq> ''Status'' \<and>
                     field_of COLUMN_ORDER g c = Some ''not in pig'' \<longrightarrow>
                     field_of STORE_COLUMNS r c = Some []))))"
proof -
  from assms(4) obtain g gs where gs: "rows edited_df = g # gs" by (cases "rows edited_df") auto
  from upsert_rows [OF assms(1,2,3) gs, of category status]
  obtain pd' where pd': "upsert pig_data edited_df category status = Inr pd'"
    and s: "set (rows pd') =
             {r \<in> set (rows pig_data). \<exists>s t. r ! 0 = Some s \<and> g ! 0 = Some t \<and> s \<noteq> t \<and> s \<notin> set NO_ITEM} \<union>
             {r \<in> stored_record category status ` set (rows edited_df).
                \<exists>s. r ! 0 = Some s \<and> g ! 0 = Some s \<and> s \<notin> set NO_ITEM}"
    by (elim exE conjE)
  have new: "r \<in> stored_record category status ` set (rows edited_df)"
    if "r \<in> set (rows pd')" "r \<notin> set (rows pig_data)" for r
    using that unfolding s by simp
  have fld: "field_of STORE_COLUMNS (stored_record category status g') c = Some []"
    if "c \<in> set STORE_COLUMNS" "c \<noteq> ''Category'' \<and> c \<noteq> ''Status'' \<and>
          field_of COLUMN_ORDER g' c = Some ''not in pig''" for c g'
    using that(2) unfolding stored_record_field [OF that(1)] by (simp add: translate_sentinel_def)
  show ?thesis
  proof (intro exI conjI ballI)
    show "upsert pig_data edited_df category status = Inr pd'" by (rule pd')
  next
    fix r assume r: "r \<in> set (rows pd')"
    show "r \<in> set (rows pig_data) \<or>
              (Some ''not in pig'' \<notin> set r \<and>
               (\<exists>g \<in> set (rows edited_df). r = stored_record category status g \<and>
                  (\<forall>c \<in> set STORE_COLUMNS.
                     c \<noteq> ''Category'' \<and> c \<noteq> ''Status'' \<and>
                     field_of COLUMN_ORDER g c = Some ''not in pig'' \<longrightarrow>
                     field_of STORE_COLUMNS r c = Some [])))"
    proof (cases "r \<in> set (rows pig_data)")
      case True
      then show ?thesis by (rule disjI1)
    next
      case False
      from new [OF r False] obtain g' where g': "g' \<in> set (rows edited_df)"
        and rg: "r = stored_record category status g'"
        by (elim imageE)
      show ?thesis
      proof (intro disjI2 conjI bexI [of _ g'] ballI impI)
        show "Some ''not in pig'' \<notin> set r" unfolding rg by (rule stored_record_no_sentinel)
        show "r = stored_record category status g'" by (rule rg)
        show "g' \<in> set (rows edited_df)" by (rule g')
      next
        fix c assume "c \<in> set STORE_COLUMNS" and "c \<noteq> ''Category'' \<and> c \<noteq> ''Status'' \<and>
                     field_of COLUMN_ORDER g' c = Some ''not in pig''"
        then show "field_of STORE_COLUMNS r c = Some []" unfolding rg by (rule fld)
      qed
    qed
  qed
qed


theorem C7_sentinel_translated_before_merge_witness:
  "columns example_store = STORE_COLUMNS \<and> columns example_grid = COLUMN_ORDER \<and>
   wf_table example_grid \<and> rows example_grid \<noteq> [] \<and>
   Some ''not in pig'' \<in> set example_grid_row \<and>
   (\<exists>pd'. upsert example_store example_grid (Some ''Tools'') (Some ''active'') = Inr pd' \<and>
      stored_record (Some ''Tools'') (Some ''active'') example_grid_row \<in> set (rows pd') \<and>
      Some ''not in pig'' \<notin> set (stored_record (Some ''Tools'') (Some ''active'') example_grid_row))"
proof -
  let ?new = "stored_record (Some ''Tools'') (Some ''active'') example_grid_row"
  have h1: "columns example_store = STORE_COLUMNS" by (simp add: example_store_def)
  have h2: "columns example_grid = COLUMN_ORDER" by (simp add: example_grid_def)
  have h3: "wf_table example_grid"
    by (simp add: wf_table_def example_grid_def example_grid_row_def length_COLUMN_ORDER)
  have h4: "rows example_grid \<noteq> []" by (simp add: example_grid_def)
  have h5: "Some ''not in pig'' \<in> set example_grid_row" by (simp add: example_grid_row_def)
  have cat: "''Category'' \<in> set STORE_COLUMNS"
    by (simp add: set_STORE_COLUMNS Category_in_COLUMN_ORDER)
  have c: "field_of STORE_COLUMNS ?new ''Category'' = Some ''Tools''"
    unfolding stored_record_field [OF cat] by (simp add: translate_sentinel_def)
  have i1: "index_of STORE_COLUMNS ''Category'' = Some 1" by (simp add: STORE_COLUMNS_def)
  have "field_of STORE_COLUMNS r ''Category'' = Some ''old'' \<or>
        field_of STORE_COLUMNS r ''Category'' = Some ''kept''"
    if "r \<in> set (rows example_store)" for r
    using that unfolding field_of_def i1 by (auto simp: example_store_def)
  with c have old: "?new \<notin> set (rows example_store)" by fastforce
  from C7_sentinel_translated_before_merge [OF h1 h2 h3 h4, of "Some ''Tools''" "Some ''active''"]
  obtain pd' where pd': "upsert example_store example_grid (Some ''Tools'') (Some ''active'') = Inr pd'"
    and big: "\<forall>r \<in> set (rows pd'). r \<in> set (rows example_store) \<or>
              (Some ''not in pig'' \<notin> set r \<and>
               (\<exists>g \<in> set (rows example_grid). r = stored_record (Some ''Tools'') (Some ''active'') g \<and>
                  (\<forall>c \<in> set STORE_COLUMNS.
                     c \<noteq> ''Category'' \<and> c \<noteq> ''Status'' \<and>
                     field_of COLUMN_ORDER g c = Some ''not in pig'' \<longrightarrow>
                     field_of STORE_COLUMNS r c = Some [])))"
    by (elim exE conjE)
  from example_row_stored obtain pd'' where
    "upsert example_store example_grid (Some ''Tools'') (Some ''active'') = Inr pd''"
    "?new \<in> set (rows pd'')" by (elim exE conjE)
  with pd' have m: "?new \<in> set (rows pd')" by simp
  from big m have "?new \<in> set (rows example_store) \<or>
              (Some ''not in pig'' \<notin> set ?new \<and>
               (\<exists>g \<in> set (rows example_grid). ?new = stored_record (Some ''Tools'') (Some ''active'') g \<and>
                  (\<forall>c \<in> set STORE_COLUMNS.
                     c \<noteq> ''Category'' \<and> c \<noteq> ''Status'' \<and>
                     field_of COLUMN_ORDER g c = Some ''not in pig'' \<longrightarrow>
                     field_of STORE_COLUMNS ?new c = Some [])))"
    by (rule bspec)
  then have ns: "Some ''not in pig'' \<notin> set ?new"
  proof (elim disjE conjE)
    assume "?new \<in> set (rows example_store)"
    with old show ?thesis by simp
  qed
  show ?thesis
  proof (intro conjI exI)
    show "upsert example_store example_grid (Some ''Tools'') (Some ''active'') = Inr pd'"
      by (rule pd')
  qed (rule h1 h2 h3 h4 h5 m ns)+
qed

section \<open>Dataset Store: category and status come from the selection controls\<close>




section \<open>Merge/Publish Pipeline: the local side of the export\<close>

lemma index_of_Status_STORE: "index_of STORE_COLUMNS ''Status'' = Some 3"
  by (simp add: STORE_COLUMNS_def)

lemma drop_Status_STORE: "drop_nth 3 STORE_COLUMNS = COLUMN_ORDER"
  by (simp add: drop_nth_def STORE_COLUMNS_def COLUMN_ORDER_def)

lemma session_data_store:
  assumes "columns pd = STORE_COLUMNS"
  shows "session_data pd =
         Inr \<lparr>columns = COLUMN_ORDER,
              rows = sort_key (\<lambda>r. item_key (r ! 0)) (remdups (map (drop_nth 3) (rows pd)))\<rparr>"
  unfolding session_data_def assms index_of_Status_STORE
  by (simp add: drop_Status_STORE index_of_Item_COLUMN_ORDER)

lemma index_of_append:
  "index_of (xs @ ys) c =
     (case index_of xs c of Some k \<Rightarrow> Some k
      | None \<Rightarrow> map_option (\<lambda>k. length xs + k) (index_of ys c))"
  by (induction xs) (cases "index_of ys c"; auto split: option.splits)+

lemma field_drop_Status:
  assumes "length r = 46" and "c \<in> set COLUMN_ORDER"
  shows "field_of COLUMN_ORDER (drop_nth 3 r) c = field_of STORE_COLUMNS r c"
proof -
  let ?A = "take 3 COLUMN_ORDER" and ?B = "drop 3 COLUMN_ORDER"
  have co: "COLUMN_ORDER = ?A @ ?B" by simp
  have lA: "length ?A = 3" by (simp add: length_COLUMN_ORDER)
  have cS: "c \<noteq> ''Status''" using assms(2) Status_notin_COLUMN_ORDER by blast
  show ?thesis
  proof (cases "index_of ?A c")
    case (Some k)
    then have k: "k < 3" using index_of_Some [OF Some] lA by simp
    have "index_of COLUMN_ORDER c = Some k"
      by (subst co) (simp only: index_of_append Some option.case)
    moreover have "index_of STORE_COLUMNS c = Some k"
      unfolding STORE_COLUMNS_split by (simp only: index_of_append Some option.case)
    ultimately show ?thesis using k assms(1) by (simp add: field_of_def drop_nth_def nth_append)
  next
    case None
    then have "c \<notin> set ?A" using index_of_None_iff by blast
    then have "c \<in> set ?B" using assms(2) co by (metis Un_iff set_append)
    then obtain k where k: "index_of ?B c = Some k" using index_of_mem by blast
    have "index_of COLUMN_ORDER c = Some (3 + k)"
      by (subst co) (simp only: index_of_append None k option.case option.map lA)
    moreover have "index_of STORE_COLUMNS c = Some (4 + k)"
      unfolding STORE_COLUMNS_split using cS
      by (simp add: index_of_append None k length_COLUMN_ORDER)
    ultimately show ?thesis using assms(1)
      by (simp add: field_of_def drop_nth_def nth_append add.commute)
  qed
qed

text \<open>
  Claim C8 (as amended). The claim reads: the local side of the export is the content of
  the store with the \<^verbatim>\<open>Status\<close> column excluded, ordered by \<^verbatim>\<open>Item\<close>, and consists of
  exactly 44 columns (the range A to AS) in the canonical column order.

  The canonical order \<^verbatim>\<open>COLUMN_ORDER\<close> has 45 names, and A to AS are 45 spreadsheet
  columns. What is proved: for a store with the schema \<^verbatim>\<open>STORE_COLUMNS\<close> the query of step
  1 succeeds; its columns are \<^verbatim>\<open>COLUMN_ORDER\<close>, 45 columns without \<^verbatim>\<open>Status\<close>; its rows are
  the rows of the store with the \<^verbatim>\<open>Status\<close> cell removed (every other field of a
  well-formed row keeps its value under its name), without duplicates, in ascending order
  of \<^verbatim>\<open>Item\<close> (missing values last).
\<close>

theorem C8_local_side_of_export:
  assumes "columns pig_data = STORE_COLUMNS"
  shows "\<exists>sd. session_data pig_data = Inr sd \<and>
           columns sd = COLUMN_ORDER \<and> length (columns sd) = 45 \<and>
           ''Status'' \<notin> set (columns sd) \<and>
           set (rows sd) = drop_nth 3 ` set (rows pig_data) \<and>
           distinct (rows sd) \<and>
           sorted (map (\<lambda>r. item_key (field_of COLUMN_ORDER r ''Item'')) (rows sd)) \<and>
           (\<forall>r \<in> set (rows pig_data). length r = 46 \<longrightarrow>
              (\<forall>c \<in> set COLUMN_ORDER.
                 field_of COLUMN_ORDER (drop_nth 3 r) c = field_of STORE_COLUMNS r c))"
proof (intro exI conjI ballI impI)
  let ?sd = "\<lparr>columns = COLUMN_ORDER,
              rows = sort_key (\<lambda>r. item_key (r ! 0)) (remdups (map (drop_nth 3) (rows pig_data)))\<rparr>"
  show "session_data pig_data = Inr ?sd" using assms by (rule session_data_store)
  show "columns ?sd = COLUMN_ORDER" by simp
  show "length (columns ?sd) = 45" by (simp add: length_COLUMN_ORDER)
  show "''Status'' \<notin> set (columns ?sd)" by (simp add: Status_notin_COLUMN_ORDER)
  show "set (rows ?sd) = drop_nth 3 ` set (rows pig_data)" by simp
  show "distinct (rows ?sd)" by simp
  have "sorted (map (\<lambda>r. item_key (r ! 0)) (rows ?sd))"
    unfolding frame.simps by (rule sorted_sort_key)
  then show "sorted (map (\<lambda>r. item_key (field_of COLUMN_ORDER r ''Item'')) (rows ?sd))"
    unfolding field_of_def index_of_Item_COLUMN_ORDER option.sel .
next
  fix r :: row and c assume "length r = 46" "c \<in> set COLUMN_ORDER"
  then show "field_of COLUMN_ORDER (drop_nth 3 r) c = field_of STORE_COLUMNS r c"
    by (rule field_drop_Status)
qed

theorem C8_local_side_of_export_witness:
  "columns example_store = STORE_COLUMNS \<and>
   (\<exists>sd. session_data example_store = Inr sd \<and> columns sd = COLUMN_ORDER \<and>
         length (columns sd) = 45 \<and> ''Status'' \<notin> set (columns sd))"
proof -
  have h1: "columns example_store = STORE_COLUMNS" by (simp add: example_store_def)
  from C8_local_side_of_export [OF h1]
  obtain sd where "session_data example_store = Inr sd" "columns sd = COLUMN_ORDER"
    "length (columns sd) = 45" "''Status'' \<notin> set (columns sd)"
    by (elim exE conjE)
  then show ?thesis using h1 by (intro conjI exI [of _ sd])
qed

text \<open>The claim as stated fails on every store: the local side has 45 columns, not 44.\<close>

theorem C8_local_side_has_45_columns:
  "map_sum id (\<lambda>sd. length (columns sd) = 44) (session_data example_store) = Inr False"
proof -
  have h1: "columns example_store = STORE_COLUMNS" by (simp add: example_store_def)
  show ?thesis unfolding session_data_store [OF h1] by (simp add: length_COLUMN_ORDER)
qed


section \<open>Merge/Publish Pipeline: the vendor columns\<close>

lemma index_of_nth_distinct: "distinct xs \<Longrightarrow> i < length xs \<Longrightarrow> index_of xs (xs ! i) = Some i"
proof (induction xs arbitrary: i)
  case Nil
  then show ?case by simp
next
  case (Cons x xs)
  show ?case
  proof (cases i)
    case 0
    then show ?thesis by simp
  next
    case (Suc j)
    with Cons.prems have "xs ! j \<in> set xs" "x \<notin> set xs" by simp_all
    then have "x \<noteq> xs ! j" by blast
    with Suc Cons show ?thesis by simp
  qed
qed

lemma drop_take_nths:
  assumes "n \<le> length xs"
  shows "drop m (take n xs) = map ((!) xs) [m..<n]"
proof -
  have "take n xs = take n (map ((!) xs) [0..<length xs])" by (simp only: map_nth)
  also have "\<dots> = map ((!) xs) [0..<n]" using assms by (simp add: take_map)
  finally show ?thesis by (simp add: drop_map)
qed

lemma vendor_columns_wide:
  assumes "distinct (columns v)" and "bo_idx < length (columns v)"
  shows "vendor_columns v =
         Inr (Some \<lparr>columns = ''Item'' # map ((!) (columns v)) [at_idx..<Suc bo_idx],
                    rows = map (\<lambda>r. r ! 0 # map ((!) r) [at_idx..<Suc bo_idx]) (rows v)\<rparr>)"
proof -
  let ?cs = "columns v"
  obtain c0 cs' where c0: "?cs = c0 # cs'" using assms(2) by (cases ?cs) auto
  have c00: "c0 = ?cs ! 0" by (subst c0) simp
  let ?ab = "map ((!) ?cs) [at_idx..<Suc bo_idx]"
  have ab: "drop at_idx (take (bo_idx + 1) ?cs) = ?ab"
    using assms(2) by (simp add: drop_take_nths)
  have "c0 \<in> set ?cs" by (subst c0) simp
  moreover have "set ?ab \<subseteq> set ?cs" using assms(2) by auto
  ultimately have sub: "set ([c0] @ ?ab) \<subseteq> set ?cs" by simp
  have idx: "index_of ?cs (?cs ! i) = Some i" if "i \<le> bo_idx" for i
    using that assms by (intro index_of_nth_distinct) auto
  have notin: "c0 \<notin> set ?ab"
  proof
    assume "c0 \<in> set ?ab"
    then obtain i where i: "at_idx \<le> i" "i \<le> bo_idx" "?cs ! i = ?cs ! 0" unfolding c00 by auto
    have "i < length ?cs" "0 < length ?cs" using i(2) assms(2) by auto
    from nth_eq_iff_index_eq [OF assms(1) this] i(3) have "i = 0" by blast
    with i(1) show False by (simp add: at_idx_def)
  qed
  have rowsel: "map (\<lambda>c. r ! the (index_of ?cs c)) ([c0] @ ?ab) =
                r ! 0 # map ((!) r) [at_idx..<Suc bo_idx]" for r :: "'c list"
  proof -
    have "map (\<lambda>c. r ! the (index_of ?cs c)) ?ab = map ((!) r) [at_idx..<Suc bo_idx]"
      unfolding map_map by (rule map_cong [OF refl]) (auto simp: idx)
    moreover have "index_of ?cs c0 = Some 0" unfolding c00 using idx [of 0] by simp
    ultimately show ?thesis by simp
  qed
  have sel: "select_columns v ([c0] @ ?ab) =
      Inr \<lparr>columns = [c0] @ ?ab,
           rows = map (\<lambda>r. r ! 0 # map ((!) r) [at_idx..<Suc bo_idx]) (rows v)\<rparr>"
    unfolding select_columns_def using sub by (simp only: if_True rowsel)
  have ren: "map (\<lambda>c. if c = c0 then ''Item'' else c) ([c0] @ ?ab) = ''Item'' # ?ab"
    using notin by (auto simp: map_idI)
  have ne: "?cs \<noteq> []" and hd: "hd ?cs = c0" by (simp_all add: c0)
  show ?thesis
    unfolding vendor_columns_def Let_def ab list.case_eq_if
    apply (simp only: ne hd if_False assms(2) if_True sel sum.case)
    apply (simp only: ren frame.simps frame.update_convs)
    done
qed

lemma fetch_vendor_wide:
  assumes "distinct (columns v)" and "bo_idx < length (columns v)"
  shows "fetch_vendor_data (Inr v) =
         (Some \<lparr>columns = ''Item'' # map ((!) (columns v)) [at_idx..<Suc bo_idx],
                rows = map (\<lambda>r. r ! 0 # map ((!) r) [at_idx..<Suc bo_idx]) (rows v)\<rparr>, None)"
  by (simp add: fetch_vendor_data_def vendor_columns_wide [OF assms] del: upt_Suc)

lemma fetch_vendor_narrow:
  assumes "length (columns v) \<le> bo_idx"
  shows "fetch_vendor_data (Inr v) =
         (None, Some (if columns v = [] then VendorUnavailable else MissingColumns))"
  using assms unfolding fetch_vendor_data_def vendor_columns_def
  by (cases "columns v") simp_all

lemma build_export_local_only:
  assumes "session_data pd = Inr sd" and "fetch_vendor_data fetched = (None, w)"
  shows "build_export pd fetched = Inr (fillna (to_pandas sd) [], w)"
  unfolding build_export_def assms by (simp add: merge_step_def)

lemma distinct_wide_vendor: "distinct (columns wide_vendor)"
  by code_simp

text \<open>
  Claim C6. If the fetched vendor sheet has at least 67 columns, the vendor-owned slice is
  exactly the zero-indexed column range 45 to 66 (AT to BO), joined with the item column;
  if it has fewer columns, the pipeline falls back to the local data, shows a warning
  instead of failing, and the export is the local data alone.

  The vendor frame comes from \<^verbatim>\<open>pd.read_excel\<close>, which makes column names distinct. With
  \<open>at_idx = 45\<close> and \<open>bo_idx = 66\<close>: a frame of at least 67 columns gives, without warning,
  the frame whose columns are \<^verbatim>\<open>Item\<close> (the first column, renamed) and the columns
  \<open>45, \<dots>, 66\<close>, every row cut the same way; a frame of fewer columns gives no vendor
  data and a warning, and for a store with the schema \<^verbatim>\<open>STORE_COLUMNS\<close> the export is
  built and equals the local side (step 1), as a pandas frame, with missing cells filled
  by the empty string.
\<close>

theorem C6_vendor_slice_or_fallback:
  assumes "columns pig_data = STORE_COLUMNS" and "distinct (columns vendor_df)"
  shows "at_idx = 45 \<and> bo_idx = 66 \<and>
    (67 \<le> length (columns vendor_df) \<longrightarrow>
       fetch_vendor_data (Inr vendor_df) =
         (Some \<lparr>columns = ''Item'' # map ((!) (columns vendor_df)) [at_idx..<Suc bo_idx],
                rows = map (\<lambda>r. r ! 0 # map ((!) r) [at_idx..<Suc bo_idx]) (rows vendor_df)\<rparr>,
          None)) \<and>
    (length (columns vendor_df) < 67 \<longrightarrow>
       (\<exists>sd w. session_data pig_data = Inr sd \<and>
          fetch_vendor_data (Inr vendor_df) = (None, Some w) \<and>
          build_export pig_data (Inr vendor_df) = Inr (fillna (to_pandas sd) [], Some w)))"
proof (intro conjI impI)
  show "at_idx = 45" by (simp add: at_idx_def)
  show "bo_idx = 66" by (simp add: bo_idx_def)
next
  assume "67 \<le> length (columns vendor_df)"
  then have "bo_idx < length (columns vendor_df)" by (simp add: bo_idx_def)
  with assms(2) show "fetch_vendor_data (Inr vendor_df) =
         (Some \<lparr>columns = ''Item'' # map ((!) (columns vendor_df)) [at_idx..<Suc bo_idx],
                rows = map (\<lambda>r. r ! 0 # map ((!) r) [at_idx..<Suc bo_idx]) (rows vendor_df)\<rparr>,
          None)" by (rule fetch_vendor_wide)
next
  assume "length (columns vendor_df) < 67"
  then have "length (columns vendor_df) \<le> bo_idx" by (simp add: bo_idx_def)
  then have f: "fetch_vendor_data (Inr vendor_df) =
      (None, Some (if columns vendor_df = [] then VendorUnavailable else MissingColumns))"
    by (rule fetch_vendor_narrow)
  note s = session_data_store [OF assms(1)]
  from build_export_local_only [OF s f] s f
  show "\<exists>sd w. session_data pig_data = Inr sd \<and>
          fetch_vendor_data (Inr vendor_df) = (None, Some w) \<and>
          build_export pig_data (Inr vendor_df) = Inr (fillna (to_pandas sd) [], Some w)"
    by (intro exI conjI)
qed

theorem C6_vendor_slice_or_fallback_witness:
  "columns example_store = STORE_COLUMNS \<and>
   distinct (columns wide_vendor) \<and> 67 \<le> length (columns wide_vendor) \<and>
   distinct (columns narrow_vendor) \<and> length (columns narrow_vendor) < 67 \<and>
   fetch_vendor_data (Inr wide_vendor) =
     (Some \<lparr>columns = ''Item'' # map ((!) (columns wide_vendor)) [at_idx..<Suc bo_idx],
            rows = map (\<lambda>r. r ! 0 # map ((!) r) [at_idx..<Suc bo_idx]) (rows wide_vendor)\<rparr>,
      None) \<and>
   (\<exists>sd w. session_data example_store = Inr sd \<and>
      fetch_vendor_data (Inr narrow_vendor) = (None, Some w) \<and>
      build_export example_store (Inr narrow_vendor) = Inr (fillna (to_pandas sd) [], Some w))"
proof -
  have h1: "columns example_store = STORE_COLUMNS" by (simp add: example_store_def)
  have h2: "distinct (columns wide_vendor)" by (rule distinct_wide_vendor)
  have h3: "67 \<le> length (columns wide_vendor)" by (simp add: wide_vendor_def)
  have h4: "distinct (columns narrow_vendor)" by (simp add: narrow_vendor_def)
  have h5: "length (columns narrow_vendor) < 67" by (simp add: narrow_vendor_def)
  from C6_vendor_slice_or_fallback [OF h1 h2]
  have "67 \<le> length (columns wide_vendor) \<longrightarrow> fetch_vendor_data (Inr wide_vendor) =
     (Some \<lparr>columns = ''Item'' # map ((!) (columns wide_vendor)) [at_idx..<Suc bo_idx],
            rows = map (\<lambda>r. r ! 0 # map ((!) r) [at_idx..<Suc bo_idx]) (rows wide_vendor)\<rparr>,
      None)" by (elim conjE)
  from this h3
  have w: "fetch_vendor_data (Inr wide_vendor) =
     (Some \<lparr>columns = ''Item'' # map ((!) (columns wide_vendor)) [at_idx..<Suc bo_idx],
            rows = map (\<lambda>r. r ! 0 # map ((!) r) [at_idx..<Suc bo_idx]) (rows wide_vendor)\<rparr>,
      None)" by (rule mp)
  from C6_vendor_slice_or_fallback [OF h1 h4]
  have "length (columns narrow_vendor) < 67 \<longrightarrow> (\<exists>sd w. session_data example_store = Inr sd \<and>
      fetch_vendor_data (Inr narrow_vendor) = (None, Some w) \<and>
      build_export example_store (Inr narrow_vendor) = Inr (fillna (to_pandas sd) [], Some w))"
    by (elim conjE)
  from this h5
  have n: "\<exists>sd w. session_data example_store = Inr sd \<and>
      fetch_vendor_data (Inr narrow_vendor) = (None, Some w) \<and>
      build_export example_store (Inr narrow_vendor) = Inr (fillna (to_pandas sd) [], Some w)"
    by (rule mp)
  show ?thesis by (intro conjI) (rule h1 h2 h3 h4 h5 w n)+
qed

end
